theory Spec2Isabelle
  imports Complex_Main "HOL-Library.Word" "HOL-Library.FSet" "HOL-Library.Multiset"
    "HOL-Library.AList" "HOL-Library.List_Lexorder" "HOL-Library.Char_ord"
    "HOL-Library.Product_Lexorder"
begin

unbundle bit_operations_syntax

section \<open>Common data\<close>

text \<open>
  Python \<open>bytes\<close> are sequences of integers in \<open>0..255\<close>: lists of 8-bit words.
  Block ids are Python integers: \<open>int\<close>. Python sets are finite: \<open>fset\<close>.
  Exceptions that escape a function are values of \<open>py_error\<close>.
\<close>

type_synonym byte = "8 word"
type_synonym bytes = "byte list"

datatype py_error = IndexError | ValueError | FileNotFoundError

text \<open>\<open>range(n)\<close> for a Python integer \<open>n\<close>: empty when \<open>n \<le> 0\<close>.\<close>

definition py_range :: "int \<Rightarrow> int list" where
  "py_range n = [0..n - 1]"

text \<open>The test \<open>byte & (1 << (7 - bit_idx))\<close> of the bitfield decoders.\<close>

definition bit_mask :: "int \<Rightarrow> byte" where
  "bit_mask block_id = push_bit (nat (7 - block_id mod 8)) 1"

section \<open>Block store: \<open>minibit/src/peer/block_manager.py\<close>\<close>

text \<open>
  The fields of \<open>BlockManager\<close>, and the part of the file system it touches:
  \<open>block_files\<close> are the files \<open>block_<id>.dat\<close> of the peer's block directory,
  \<open>state_file\<close> is \<open>state.json\<close>, \<open>out_files\<close> are the reconstructed files by name.
  \<open>fs_ok\<close> says whether opening a file for writing succeeds; when it does not, the
  \<open>open\<close> raises and the enclosing \<open>except\<close> branch is taken.
\<close>

record saved_state =
  st_blocks_owned :: "int fset"
  st_total_blocks :: int
  st_block_size :: int
  st_file_name :: "string option"
  st_file_hash :: "string option"

record BlockManager =
  blocks_owned :: "int fset"
  total_blocks :: int
  block_size :: int
  file_name :: "string option"
  file_hash :: "string option"
  blocks_data :: "int \<rightharpoonup> bytes"
  block_files :: "int \<rightharpoonup> bytes"
  state_file :: "saved_state option"
  out_files :: "string \<rightharpoonup> bytes"
  fs_ok :: bool

definition has_block :: "BlockManager \<Rightarrow> int \<Rightarrow> bool" where
  "has_block bm block_id = (block_id |\<in>| blocks_owned bm)"

text \<open>
  \<open>get_block\<close>: the bytes of an owned block, from memory or else from its file,
  which is then cached in \<open>blocks_data\<close>.
\<close>

definition get_block :: "BlockManager \<Rightarrow> int \<Rightarrow> bytes option \<times> BlockManager" where
  "get_block bm block_id =
     (if \<not> has_block bm block_id then (None, bm)
      else case blocks_data bm block_id of
        Some d \<Rightarrow> (Some d, bm)
      | None \<Rightarrow>
          (case block_files bm block_id of
             Some d \<Rightarrow> (Some d, bm\<lparr>blocks_data := (blocks_data bm)(block_id \<mapsto> d)\<rparr>)
           | None \<Rightarrow> (None, bm)))"

definition save_state :: "BlockManager \<Rightarrow> BlockManager" where
  "save_state bm =
     (if fs_ok bm
      then bm\<lparr>state_file := Some \<lparr>st_blocks_owned = blocks_owned bm,
                 st_total_blocks = total_blocks bm, st_block_size = block_size bm,
                 st_file_name = file_name bm, st_file_hash = file_hash bm\<rparr>\<rparr>
      else bm)"

text \<open>
  The loop of \<open>reconstruct_file\<close> over \<open>range(total_blocks)\<close>: it stops at the first
  block that \<open>get_block\<close> does not find or finds empty (\<open>if not block_data\<close>); what was
  written so far stays in the output file.
\<close>

fun reconstruct_loop :: "BlockManager \<Rightarrow> int list \<Rightarrow> bytes \<Rightarrow> bool \<times> bytes \<times> BlockManager" where
  "reconstruct_loop bm [] acc = (True, acc, bm)"
| "reconstruct_loop bm (i # ids) acc =
     (case get_block bm i of
        (None, bm') \<Rightarrow> (False, acc, bm')
      | (Some d, bm') \<Rightarrow>
          if d = [] then (False, acc, bm') else reconstruct_loop bm' ids (acc @ d))"

text \<open>
  \<open>reconstruct_file\<close> with the default output path. \<open>sha256\<close> stands for
  \<open>hashlib.sha256(...).hexdigest()\<close>, a parameter of the model.
\<close>

definition reconstruct_file :: "(bytes \<Rightarrow> string) \<Rightarrow> BlockManager \<Rightarrow> bool \<times> BlockManager" where
  "reconstruct_file sha256 bm =
     (if int (fcard (blocks_owned bm)) \<noteq> total_blocks bm then (False, bm)
      else case file_name bm of
        None \<Rightarrow> (False, bm)
      | Some name \<Rightarrow>
          if name = [] then (False, bm)
          else if \<not> fs_ok bm then (False, bm)
          else
            (case reconstruct_loop bm (py_range (total_blocks bm)) [] of
               (ok, content, bm') \<Rightarrow>
                 let bm'' = bm'\<lparr>out_files := (out_files bm')(name \<mapsto> content)\<rparr>
                 in if \<not> ok then (False, bm'')
                    else (case file_hash bm'' of
                            None \<Rightarrow> (True, bm'')
                          | Some h \<Rightarrow>
                              if h \<noteq> [] \<and> sha256 content \<noteq> h then (False, bm'')
                              else (True, bm''))))"

text \<open>
  \<open>add_block\<close>: the range check, the already-owned check, then the write of the block
  file, the update of memory and of the owned set, the saved state, and the
  reconstruction once every block is owned. No check reads the bytes.
\<close>

definition add_block ::
  "(bytes \<Rightarrow> string) \<Rightarrow> BlockManager \<Rightarrow> int \<Rightarrow> bytes \<Rightarrow> bool \<times> BlockManager" where
  "add_block sha256 bm block_id data =
     (if block_id < 0 \<or> block_id \<ge> total_blocks bm then (False, bm)
      else if block_id |\<in>| blocks_owned bm then (True, bm)
      else if \<not> fs_ok bm then (False, bm)
      else
        let bm1 = bm\<lparr>block_files := (block_files bm)(block_id \<mapsto> data)\<rparr>;
            bm2 = bm1\<lparr>blocks_data := (blocks_data bm1)(block_id \<mapsto> data),
                      blocks_owned := finsert block_id (blocks_owned bm1)\<rparr>;
            bm3 = save_state bm2;
            bm4 = (if int (fcard (blocks_owned bm3)) = total_blocks bm3
                   then snd (reconstruct_file sha256 bm3) else bm3)
        in (True, bm4))"

definition get_missing_blocks :: "BlockManager \<Rightarrow> int list" where
  "get_missing_blocks bm =
     (if total_blocks bm = 0 then []
      else filter (\<lambda>b. b |\<notin>| blocks_owned bm) (py_range (total_blocks bm)))"

definition is_complete :: "BlockManager \<Rightarrow> bool" where
  "is_complete bm = (int (fcard (blocks_owned bm)) = total_blocks bm \<and> total_blocks bm > 0)"

text \<open>
  \<open>get_bitfield\<close>. \<open>bytearray(n)\<close> raises \<open>ValueError\<close> for a negative \<open>n\<close>; the
  indexed update raises \<open>IndexError\<close> outside \<open>[-len, len)\<close> and counts a negative
  index from the end. The loop runs over the owned set, here in ascending order;
  \<open>set_bits\<close> is stated for any order.
\<close>

fun set_bits :: "int list \<Rightarrow> bytes \<Rightarrow> py_error + bytes" where
  "set_bits [] bitfield = Inr bitfield"
| "set_bits (block_id # ids) bitfield =
     (let byte_idx = block_id div 8;
          n = int (length bitfield);
          j = (if byte_idx < 0 then n + byte_idx else byte_idx)
      in if 0 \<le> j \<and> j < n
         then set_bits ids (bitfield[nat j := (bitfield ! nat j) OR bit_mask block_id])
         else Inl IndexError)"

definition get_bitfield :: "BlockManager \<Rightarrow> py_error + bytes" where
  "get_bitfield bm =
     (if total_blocks bm = 0 then Inr []
      else let bitfield_size = (total_blocks bm + 7) div 8
           in if bitfield_size < 0 then Inl ValueError
              else set_bits (sorted_list_of_fset (blocks_owned bm))
                     (replicate (nat bitfield_size) 0))"

text \<open>\<open>set_from_bitfield\<close>: the owned set is cleared and rebuilt from the bits.\<close>

definition bitfield_has :: "bytes \<Rightarrow> int \<Rightarrow> bool" where
  "bitfield_has bitfield block_id =
     (block_id div 8 < int (length bitfield) \<and>
      (bitfield ! nat (block_id div 8)) AND bit_mask block_id \<noteq> 0)"

definition set_from_bitfield :: "BlockManager \<Rightarrow> bytes \<Rightarrow> int \<Rightarrow> BlockManager" where
  "set_from_bitfield bm bitfield n =
     bm\<lparr>total_blocks := n,
        blocks_owned := fset_of_list (filter (bitfield_has bitfield) (py_range n))\<rparr>"

text \<open>
  The bit of block \<open>i\<close> as the wire format reads it:
  \<open>(byte[i/8] >> (7 - (i%8))) & 1\<close>.
\<close>

definition bit_at :: "bytes \<Rightarrow> int \<Rightarrow> byte" where
  "bit_at bitfield i = drop_bit (nat (7 - i mod 8)) (bitfield ! nat (i div 8)) AND 1"

text \<open>What \<open>get_block\<close> returns, as an observation of the store.\<close>

definition read_block :: "BlockManager \<Rightarrow> int \<Rightarrow> bytes option" where
  "read_block bm block_id = fst (get_block bm block_id)"

text \<open>
  A freshly created store for a file of four blocks named \<open>f\<close>, nothing owned, and the
  same store after block 0 has arrived.
\<close>

definition store0 :: BlockManager where
  "store0 = \<lparr>blocks_owned = {||}, total_blocks = 4, block_size = 1024,
     file_name = Some ''f'', file_hash = None, blocks_data = Map.empty,
     block_files = Map.empty, state_file = None, out_files = Map.empty, fs_ok = True\<rparr>"

definition store1 :: BlockManager where
  "store1 = snd (add_block (\<lambda>_. []) store0 0 [1, 2])"

text \<open>The operations a running peer applies to its block store.\<close>

datatype store_op =
    AddBlock int bytes
  | GetBlock int
  | ReconstructFile
  | SetFromBitfield bytes int

fun apply_op :: "(bytes \<Rightarrow> string) \<Rightarrow> BlockManager \<Rightarrow> store_op \<Rightarrow> BlockManager" where
  "apply_op sha256 bm (AddBlock block_id data) = snd (add_block sha256 bm block_id data)"
| "apply_op sha256 bm (GetBlock block_id) = snd (get_block bm block_id)"
| "apply_op sha256 bm ReconstructFile = snd (reconstruct_file sha256 bm)"
| "apply_op sha256 bm (SetFromBitfield bitfield n) = set_from_bitfield bm bitfield n"

fun is_reset :: "store_op \<Rightarrow> bool" where
  "is_reset (SetFromBitfield bitfield n) = True"
| "is_reset other = False"

definition run_ops :: "(bytes \<Rightarrow> string) \<Rightarrow> BlockManager \<Rightarrow> store_op list \<Rightarrow> BlockManager" where
  "run_ops sha256 bm ops = foldl (apply_op sha256) bm ops"

section \<open>Connections: \<open>minibit/src/peer/communication.py\<close>\<close>

text \<open>
  The state a \<open>PeerConnection\<close> keeps about the remote peer, the messages that change
  it, and \<open>_update_connection_state\<close>. A field missing from a message's data is
  \<open>None\<close> (\<open>message.data.get\<close>).
\<close>

record PeerConnection =
  conn_is_active :: bool
  conn_choked :: bool
  conn_interested :: bool
  conn_bitfield :: "bytes option"
  conn_blocks_owned :: "int fset"

datatype message =
    HANDSHAKE
  | BITFIELD "bytes option"
  | HAVE "int option"
  | REQUEST int
  | PIECE int bytes
  | CHOKE
  | UNCHOKE
  | INTERESTED
  | NOT_INTERESTED
  | KEEPALIVE

definition decode_bitfield :: "bytes \<Rightarrow> int fset" where
  "decode_bitfield bitfield =
     fset_of_list (filter (bitfield_has bitfield) (py_range (int (length bitfield) * 8)))"

fun update_connection :: "PeerConnection \<Rightarrow> message \<Rightarrow> PeerConnection" where
  "update_connection c (BITFIELD b) =
     (let bitfield = (case b of None \<Rightarrow> [] | Some x \<Rightarrow> x)
      in c\<lparr>conn_bitfield := Some bitfield, conn_blocks_owned := decode_bitfield bitfield\<rparr>)"
| "update_connection c (HAVE None) = c"
| "update_connection c (HAVE (Some block_id)) =
     c\<lparr>conn_blocks_owned := finsert block_id (conn_blocks_owned c)\<rparr>"
| "update_connection c CHOKE = c\<lparr>conn_choked := True\<rparr>"
| "update_connection c UNCHOKE = c\<lparr>conn_choked := False\<rparr>"
| "update_connection c INTERESTED = c\<lparr>conn_interested := True\<rparr>"
| "update_connection c NOT_INTERESTED = c\<lparr>conn_interested := False\<rparr>"
| "update_connection c other = c"

definition update_connection_state ::
  "(string \<rightharpoonup> PeerConnection) \<Rightarrow> string \<Rightarrow> message \<Rightarrow> (string \<rightharpoonup> PeerConnection)" where
  "update_connection_state connections peer_id msg =
     (case connections peer_id of
        None \<Rightarrow> connections
      | Some c \<Rightarrow> connections(peer_id \<mapsto> update_connection c msg))"

text \<open>A new connection, as \<open>PeerConnection.__init__\<close> leaves it.\<close>

definition conn0 :: PeerConnection where
  "conn0 = \<lparr>conn_is_active = True, conn_choked = True, conn_interested = False,
     conn_bitfield = None, conn_blocks_owned = {||}\<rparr>"

section \<open>Splitting and assembling files\<close>

text \<open>
  \<open>file.read(n)\<close> on the rest of a file: up to \<open>n\<close> bytes, everything for a
  negative \<open>n\<close>, nothing for 0. The result is the chunk and what is left to read.
\<close>

definition file_read :: "int \<Rightarrow> bytes \<Rightarrow> bytes \<times> bytes" where
  "file_read n content =
     (if n < 0 then (content, []) else (take (nat n) content, drop (nat n) content))"

lemma file_read_shrinks:
  "fst (file_read n content) \<noteq> [] \<Longrightarrow> length (snd (file_read n content)) < length content"
  by (cases content) (auto simp: file_read_def split: if_splits)

text \<open>
  The reading loop shared by \<open>partition_file\<close> (\<open>minibit-final/utils/utils.py\<close>),
  \<open>FileUtils.split_file_to_blocks\<close> (\<open>minibit/src/common/file_utils.py\<close>) and
  \<open>split_file\<close> (\<open>minibit/peer/file_manager.py\<close>): read chunks until one is empty.
\<close>

function read_chunks :: "int \<Rightarrow> bytes \<Rightarrow> bytes list" where
  "read_chunks n content =
     (if fst (file_read n content) = [] then []
      else fst (file_read n content) # read_chunks n (snd (file_read n content)))"
  by pat_completeness auto
termination
  by (relation "measure (\<lambda>(n, content). length content)") (auto simp: file_read_shrinks)

declare read_chunks.simps [simp del]

text \<open>
  The block files written by the loop, numbered from \<open>block_index\<close>; the folder maps a
  block number to the content of its file.
\<close>

fun write_blocks :: "(int \<rightharpoonup> bytes) \<Rightarrow> int \<Rightarrow> bytes list \<Rightarrow> (int \<rightharpoonup> bytes)" where
  "write_blocks folder block_index [] = folder"
| "write_blocks folder block_index (chunk # chunks) =
     write_blocks (folder(block_index \<mapsto> chunk)) (block_index + 1) chunks"

definition partition_file :: "bytes \<Rightarrow> (int \<rightharpoonup> bytes) \<Rightarrow> int \<Rightarrow> int \<times> (int \<rightharpoonup> bytes)" where
  "partition_file content folder segment_size =
     (let chunks = read_chunks segment_size content
      in (int (length chunks), write_blocks folder 0 chunks))"

text \<open>
  \<open>assemble_file\<close> reads the block files in the order of \<open>sorted(block_numbers)\<close>;
  a missing file raises.
\<close>

fun read_blocks :: "(int \<rightharpoonup> bytes) \<Rightarrow> int list \<Rightarrow> py_error + bytes" where
  "read_blocks folder [] = Inr []"
| "read_blocks folder (i # ids) =
     (case folder i of
        None \<Rightarrow> Inl FileNotFoundError
      | Some d \<Rightarrow> (case read_blocks folder ids of Inl e \<Rightarrow> Inl e | Inr r \<Rightarrow> Inr (d @ r)))"

definition assemble_file :: "int list \<Rightarrow> (int \<rightharpoonup> bytes) \<Rightarrow> py_error + bytes" where
  "assemble_file block_numbers folder = read_blocks folder (sort block_numbers)"

definition split_file_to_blocks :: "bytes \<Rightarrow> int \<Rightarrow> bytes list" where
  "split_file_to_blocks content size_of_block = read_chunks size_of_block content"

text \<open>
  \<open>reconstruct_file_from_blocks\<close> takes a dictionary from block id to bytes, here its
  items, and writes the data in the order of \<open>sorted(blocks.items())\<close>.
\<close>

definition reconstruct_file_from_blocks :: "(int \<times> bytes) list \<Rightarrow> bytes" where
  "reconstruct_file_from_blocks blocks = concat (map snd (sort blocks))"

text \<open>
  \<open>split_file\<close> and \<open>reconstruct_file\<close> of \<open>minibit/peer/file_manager.py\<close>: the
  first returns the block hashes and the block count, the second raises
  \<open>ValueError\<close> when the number of blocks it is given differs from the total.
\<close>

definition split_file ::
  "(bytes \<Rightarrow> string) \<Rightarrow> bytes \<Rightarrow> (int \<rightharpoonup> bytes) \<Rightarrow> int \<Rightarrow> (string list \<times> int) \<times> (int \<rightharpoonup> bytes)" where
  "split_file sha256 content folder size_of_block =
     (let chunks = read_chunks size_of_block content
      in ((map sha256 chunks, int (length chunks)), write_blocks folder 0 chunks))"

definition fm_reconstruct_file :: "string list \<Rightarrow> int \<Rightarrow> (int \<rightharpoonup> bytes) \<Rightarrow> py_error + bytes" where
  "fm_reconstruct_file blocks n folder =
     (if int (length blocks) \<noteq> n then Inl ValueError
      else read_blocks folder (py_range n))"

section \<open>Strategies: \<open>minibit/src/peer/strategies.py\<close>\<close>

text \<open>
  The fields of \<open>PeerStrategies\<close> that rarest-first, tit-for-tat and the download
  records read or write. \<open>peer_blocks\<close> is a dictionary in insertion order. Time stamps
  and rates are Python floats, modelled by exact rationals; every function that reads
  the clock takes the value of \<open>time.time()\<close> as the argument \<open>now\<close>.
\<close>

record PeerStrategies =
  max_unchoked :: int
  peer_blocks :: "(string \<times> int fset) list"
  peer_download_rates :: "string \<rightharpoonup> rat"
  peer_upload_rates :: "string \<rightharpoonup> rat"
  unchoked_peers :: "string fset"
  interested_peers :: "string fset"
  optimistic_unchoke_peer :: "string option"
  last_unchoke_update :: rat
  last_optimistic_update :: rat
  unchoke_interval :: rat
  optimistic_interval :: rat
  successful_downloads :: "string \<rightharpoonup> int"
  failed_requests :: "string \<rightharpoonup> int"
  download_history :: "string \<rightharpoonup> (rat \<times> int) list"
  upload_history :: "string \<rightharpoonup> (rat \<times> int) list"

text \<open>\<open>__init__\<close> at time \<open>now\<close>.\<close>

definition init_strategies :: "int \<Rightarrow> rat \<Rightarrow> PeerStrategies" where
  "init_strategies k now =
     \<lparr>max_unchoked = k, peer_blocks = [], peer_download_rates = Map.empty,
      peer_upload_rates = Map.empty,
      unchoked_peers = {||}, interested_peers = {||}, optimistic_unchoke_peer = None,
      last_unchoke_update = now, last_optimistic_update = now,
      unchoke_interval = 10, optimistic_interval = 30,
      successful_downloads = Map.empty, failed_requests = Map.empty,
      download_history = Map.empty, upload_history = Map.empty\<rparr>"

text \<open>
  Reading a \<open>defaultdict(int)\<close> or \<open>d.get(k, 0)\<close>, and \<open>d.get(k, [])\<close>; the slices
  \<open>xs[:k]\<close> and \<open>xs[-k:]\<close>.
\<close>

definition counter_get :: "('k \<rightharpoonup> int) \<Rightarrow> 'k \<Rightarrow> int" where
  "counter_get m k = (case m k of None \<Rightarrow> 0 | Some v \<Rightarrow> v)"

definition history_get :: "('k \<rightharpoonup> 'v list) \<Rightarrow> 'k \<Rightarrow> 'v list" where
  "history_get m k = (case m k of None \<Rightarrow> [] | Some h \<Rightarrow> h)"

definition py_slice_to :: "int \<Rightarrow> 'a list \<Rightarrow> 'a list" where
  "py_slice_to k xs = (if k < 0 then take (length xs - nat (- k)) xs else take (nat k) xs)"

definition py_last :: "nat \<Rightarrow> 'a list \<Rightarrow> 'a list" where
  "py_last k xs = drop (length xs - k) xs"


definition set_peer_interested :: "PeerStrategies \<Rightarrow> string \<Rightarrow> bool \<Rightarrow> PeerStrategies" where
  "set_peer_interested s peer_id interested =
     (if interested then s\<lparr>interested_peers := finsert peer_id (interested_peers s)\<rparr>
      else s\<lparr>interested_peers := interested_peers s |-| {|peer_id|}\<rparr>)"



text \<open>\<open>_update_download_rate\<close> and \<open>record_download\<close>.\<close>

definition update_download_rate :: "PeerStrategies \<Rightarrow> string \<Rightarrow> rat \<Rightarrow> PeerStrategies" where
  "update_download_rate s peer_id now =
     (let history = history_get (download_history s) peer_id;
          recent_history = filter (\<lambda>(ts, n). now - ts \<le> 30) history;
          rate = (if history = [] \<or> recent_history = [] then 0
                  else of_int (sum_list (map snd recent_history)) /
                       max 1 (now - Min (set (map fst recent_history))))
      in s\<lparr>peer_download_rates := (peer_download_rates s)(peer_id \<mapsto> rate)\<rparr>)"

definition record_download ::
  "PeerStrategies \<Rightarrow> string \<Rightarrow> int \<Rightarrow> int \<Rightarrow> bool \<Rightarrow> rat \<Rightarrow> PeerStrategies" where
  "record_download s peer_id block_id bytes_downloaded success now =
     (let s1 =
        (if success
         then s\<lparr>successful_downloads :=
                   (successful_downloads s)(peer_id \<mapsto> counter_get (successful_downloads s) peer_id + 1),
                download_history :=
                   (download_history s)(peer_id \<mapsto>
                      py_last 10 (history_get (download_history s) peer_id @ [(now, bytes_downloaded)]))\<rparr>
         else s\<lparr>failed_requests :=
                   (failed_requests s)(peer_id \<mapsto> counter_get (failed_requests s) peer_id + 1)\<rparr>)
      in update_download_rate s1 peer_id now)"



text \<open>
  \<open>_calculate_tit_for_tat_score\<close>: the download rate of the last 60 seconds, a bonus
  for reciprocity and a penalty for peers we never uploaded to.
\<close>

definition calculate_tit_for_tat_score :: "PeerStrategies \<Rightarrow> string \<Rightarrow> rat \<Rightarrow> rat" where
  "calculate_tit_for_tat_score s peer_id now =
     (let downloads = history_get (download_history s) peer_id;
          uploads = history_get (upload_history s) peer_id;
          recent_downloads = filter (\<lambda>(ts, n). now - ts \<le> 60) downloads;
          score0 = (if recent_downloads = [] then 0
                    else of_int (sum_list (map snd recent_downloads)) /
                         max 1 (now - Min (set (map fst recent_downloads))));
          upload_bytes = sum_list (map snd uploads);
          download_bytes = sum_list (map snd downloads);
          score1 = (if upload_bytes > 0 \<and> download_bytes > 0
                    then score0 + of_int (min upload_bytes download_bytes) /
                                  of_int (max upload_bytes download_bytes) * 1000
                    else score0)
      in if upload_bytes = 0 \<and> download_bytes > 1000 then score1 * (1 / 10) else score1)"

text \<open>
  \<open>update_unchoked_peers\<close>: the regular tick. \<open>peer_scores.sort(reverse=True)\<close> orders
  the pairs \<open>(score, peer_id)\<close> downwards.
\<close>

definition update_unchoked_peers ::
  "PeerStrategies \<Rightarrow> string list \<Rightarrow> rat \<Rightarrow> (string fset \<times> string fset) \<times> PeerStrategies" where
  "update_unchoked_peers s connected_peers now =
     (if now - last_unchoke_update s < unchoke_interval s then (({||}, {||}), s)
      else
        let s1 = s\<lparr>last_unchoke_update := now\<rparr>;
            eligible_peers = filter (\<lambda>p. p |\<in>| interested_peers s1) connected_peers
        in if eligible_peers = [] then (({||}, {||}), s1)
           else
             let peer_scores = map (\<lambda>p. (calculate_tit_for_tat_score s1 p now, p)) eligible_peers;
                 ranked = rev (sort peer_scores);
                 new_unchoked = fset_of_list (map snd (take (nat (max_unchoked s1)) ranked));
                 newly_unchoked = new_unchoked |-| unchoked_peers s1;
                 newly_choked = unchoked_peers s1 |-| new_unchoked
             in ((newly_unchoked, newly_choked), s1\<lparr>unchoked_peers := new_unchoked\<rparr>))"

text \<open>
  \<open>select_optimistic_unchoke\<close>: the optimistic tick. \<open>random.choices\<close> with weights
  that are all at least 1 can return any eligible peer; \<open>draw\<close> is the random draw.
\<close>

definition select_optimistic_unchoke ::
  "PeerStrategies \<Rightarrow> string list \<Rightarrow> rat \<Rightarrow> nat \<Rightarrow> string option \<times> PeerStrategies" where
  "select_optimistic_unchoke s connected_peers now draw =
     (if now - last_optimistic_update s < optimistic_interval s
      then (optimistic_unchoke_peer s, s)
      else
        let s1 = s\<lparr>last_optimistic_update := now\<rparr>;
            eligible_peers = filter (\<lambda>p. p |\<in>| interested_peers s1 \<and> p |\<notin>| unchoked_peers s1)
                               connected_peers
        in if eligible_peers = [] then (None, s1\<lparr>optimistic_unchoke_peer := None\<rparr>)
           else
             let selected_peer = eligible_peers ! (draw mod length eligible_peers)
             in (Some selected_peer, s1\<lparr>optimistic_unchoke_peer := Some selected_peer\<rparr>))"


section \<open>Block hashes: \<open>minibit/src/common/file_utils.py\<close>\<close>

text \<open>
  \<open>FileInfo.validate_block\<close> compares the hash of the bytes with the hash kept for the
  block id; \<open>block_hashes\<close> are the hashes of the blocks of the original file.
  \<open>plain_digest\<close> is an injective stand-in for the digest in concrete evaluations.
\<close>

definition validate_block :: "(bytes \<Rightarrow> string) \<Rightarrow> string list \<Rightarrow> int \<Rightarrow> bytes \<Rightarrow> bool" where
  "validate_block sha256 block_hashes block_id block_data =
     (if 0 \<le> block_id \<and> block_id < int (length block_hashes)
      then sha256 block_data = block_hashes ! nat block_id
      else False)"

definition plain_digest :: "bytes \<Rightarrow> string" where
  "plain_digest data = map (\<lambda>b. char_of (unat b)) data"

section \<open>The peer of \<open>minibit-final/peer/peer.py\<close>\<close>

text \<open>
  Peers are named by their ports. \<open>files\<close> maps a block id to the content of the block
  file under \<open>files/blocks\<close>; a missing file makes \<open>open\<close> raise, the handler swallows
  the exception and sends nothing. A reply is the pickled list of owned blocks or
  pickled bytes; \<open>CHOKED\<close> is the byte string \<open>b'CHOKED'\<close>.
\<close>

definition MAX_UNCHOKED :: int where
  "MAX_UNCHOKED = 4"

record Peer =
  p_port :: int
  p_blocks :: "int fset"
  p_total_blocks :: int
  p_peers_known :: "int fset"
  p_allowed_peers :: "int fset"
  p_optimistic_peer :: "int option"
  p_blocked_by :: "int fset"

datatype request = ListRequest | BlockRequest int int | OtherRequest

datatype reply = SendBlocks "int list" | SendBytes bytes

definition CHOKED :: bytes where
  "CHOKED = [67, 72, 79, 75, 69, 68]"

definition peer_handle_request :: "Peer \<Rightarrow> (int \<rightharpoonup> bytes) \<Rightarrow> request \<Rightarrow> reply option" where
  "peer_handle_request p files req =
     (case req of
        ListRequest \<Rightarrow> Some (SendBlocks (sorted_list_of_fset (p_blocks p)))
      | BlockRequest requester_port block_id \<Rightarrow>
          let allowed = (requester_port |\<in>| p_allowed_peers p \<or>
                         Some requester_port = p_optimistic_peer p)
          in if allowed \<and> block_id |\<in>| p_blocks p
             then (case files block_id of None \<Rightarrow> None | Some d \<Rightarrow> Some (SendBytes d))
             else Some (SendBytes CHOKED)
      | OtherRequest \<Rightarrow> None)"

text \<open>
  \<open>_get_blocks_in_network\<close>: \<open>replies\<close> is what each known peer answers to a
  \<open>list\<close> request (\<open>None\<close>: no answer, and the peer is forgotten). The known peers are
  visited in ascending order of port; the \<open>Counter\<close> is a multiset.
\<close>

definition get_blocks_in_network ::
  "Peer \<Rightarrow> (int \<Rightarrow> int list option) \<Rightarrow> (int multiset \<times> (int \<times> int fset) list) \<times> Peer" where
  "get_blocks_in_network p replies =
     (let ports = filter (\<lambda>q. q \<noteq> p_port p) (sorted_list_of_fset (p_peers_known p));
          answered = filter (\<lambda>q. replies q \<noteq> None) ports;
          silent = filter (\<lambda>q. replies q = None) ports;
          block_counts = sum_list (map (\<lambda>q. mset (the (replies q))) answered);
          peer_blocks = map (\<lambda>q. (q, fset_of_list (the (replies q)))) answered
      in ((block_counts, peer_blocks),
          p\<lparr>p_peers_known := p_peers_known p |-| fset_of_list silent\<rparr>))"


text \<open>
  \<open>sorted(xs, key=..., reverse=True)\<close>: descending and stable (equal keys keep their
  order).
\<close>

definition sorted_desc :: "('a \<Rightarrow> 'k::linorder) \<Rightarrow> 'a list \<Rightarrow> 'a list" where
  "sorted_desc key xs = rev (sort_key key (rev xs))"

text \<open>
  One round of \<open>update_peers_loop\<close> after its sleep. \<open>shuffle\<close> is the random order
  behind \<open>random.sample\<close>, \<open>draw\<close> the draw of \<open>random.choice\<close>.
\<close>

definition update_peers ::
  "Peer \<Rightarrow> (int \<Rightarrow> int list option) \<Rightarrow> (int list \<Rightarrow> int list) \<Rightarrow> nat \<Rightarrow> Peer" where
  "update_peers p replies shuffle draw =
     (if p_peers_known p = {||} then p
      else
        let peer_blocks = snd (fst (get_blocks_in_network p replies));
            p1 = snd (get_blocks_in_network p replies);
            needed_blocks = fset_of_list (filter (\<lambda>b. b |\<notin>| p_blocks p1) (py_range (p_total_blocks p1)));
            p2 = p1\<lparr>p_blocked_by := {||}\<rparr>
        in if needed_blocks = {||}
           then
             let others = sorted_list_of_fset (p_peers_known p2 |-| {|p_port p2|});
                 selected = take (nat (min MAX_UNCHOKED (int (length others)))) (shuffle others)
             in p2\<lparr>p_allowed_peers := fset_of_list selected, p_optimistic_peer := None\<rparr>
           else
             let scores = map (\<lambda>(q, has_blocks).
                                 (q, if q |\<in>| p_blocked_by p2 then - 1
                                     else int (fcard (needed_blocks |\<inter>| has_blocks)))) peer_blocks;
                 ranked_peers = map fst (sorted_desc snd scores);
                 new_allowed = fset_of_list (py_slice_to MAX_UNCHOKED ranked_peers);
                 choked_peers = filter (\<lambda>q. q |\<notin>| new_allowed) ranked_peers;
                 optimistic = (if choked_peers = [] then None
                               else Some (choked_peers ! (draw mod length choked_peers)))
             in p2\<lparr>p_allowed_peers := new_allowed, p_optimistic_peer := optimistic\<rparr>)"

section \<open>The peer of \<open>algoritmos_rarest_first_e_tit_for_tat/minibit/peer\<close>\<close>

text \<open>
  \<open>TitForTat\<close> of \<open>algorithms.py\<close> and \<open>Peer\<close> of \<open>peer_node.py\<close>, here \<open>PeerNode\<close>.
  \<open>download_rates\<close> is a dictionary in insertion order holding the size of the last
  transfer from each peer; \<open>known_peers\<close> maps a peer id to the blocks the tracker
  lists for it.
\<close>

record TitForTat =
  tft_unchoked :: "string fset"
  tft_upload_rates :: "string \<rightharpoonup> int"
  tft_download_rates :: "(string \<times> int) list"
  tft_optimistic_peer :: "string option"

record PeerNode =
  pn_blocks :: "int list"
  pn_total_blocks :: int
  pn_known_peers :: "string \<rightharpoonup> int list"
  pn_tit_for_tat :: TitForTat
  pn_active_downloads :: "string \<rightharpoonup> bool \<times> rat"

datatype node_message =
    RequestBlock int string
  | ChokeMessage string
  | UnchokeMessage string
  | OtherMessage

definition tft_update_upload_rate :: "TitForTat \<Rightarrow> string \<Rightarrow> int \<Rightarrow> TitForTat" where
  "tft_update_upload_rate t peer_id bytes_uploaded =
     t\<lparr>tft_upload_rates := (tft_upload_rates t)(peer_id \<mapsto> bytes_uploaded)\<rparr>"

definition tft_update_download_rate :: "TitForTat \<Rightarrow> string \<Rightarrow> int \<Rightarrow> TitForTat" where
  "tft_update_download_rate t peer_id bytes_downloaded =
     t\<lparr>tft_download_rates := AList.update peer_id bytes_downloaded (tft_download_rates t)\<rparr>"


definition set_choked :: "PeerNode \<Rightarrow> string \<Rightarrow> bool \<Rightarrow> PeerNode" where
  "set_choked pn peer_id flag =
     (case pn_active_downloads pn peer_id of
        None \<Rightarrow> pn
      | Some (choked, last_request) \<Rightarrow>
          pn\<lparr>pn_active_downloads := (pn_active_downloads pn)(peer_id \<mapsto> (flag, last_request))\<rparr>)"

text \<open>
  \<open>Peer.handle_request\<close> of \<open>peer_node.py\<close>: the raw bytes sent back, if any, and the
  new state. A block file that cannot be opened raises; the handler prints and sends
  nothing.
\<close>

definition peer_node_handle_request ::
  "PeerNode \<Rightarrow> (int \<rightharpoonup> bytes) \<Rightarrow> node_message \<Rightarrow> bytes option \<times> PeerNode" where
  "peer_node_handle_request pn files msg =
     (case msg of
        RequestBlock block_id sender_id \<Rightarrow>
          if block_id \<in> set (pn_blocks pn)
          then (case files block_id of
                  None \<Rightarrow> (None, pn)
                | Some block_data \<Rightarrow>
                    (Some block_data,
                     pn\<lparr>pn_tit_for_tat :=
                          tft_update_upload_rate (pn_tit_for_tat pn) sender_id (int (length block_data))\<rparr>))
          else (None, pn)
      | ChokeMessage peer_id \<Rightarrow> (None, set_choked pn peer_id True)
      | UnchokeMessage peer_id \<Rightarrow> (None, set_choked pn peer_id False)
      | OtherMessage \<Rightarrow> (None, pn))"




text \<open>
  What a round of \<open>update_peers_loop\<close> works with: the blocks still needed, the known
  peers that answer the \<open>list\<close> request, and for each of them the number of needed
  blocks it lists.
\<close>

definition needed_of :: "Peer \<Rightarrow> int fset" where
  "needed_of p = fset_of_list (filter (\<lambda>b. b |\<notin>| p_blocks p) (py_range (p_total_blocks p)))"

definition answering :: "Peer \<Rightarrow> (int \<Rightarrow> int list option) \<Rightarrow> int list" where
  "answering p replies =
     filter (\<lambda>q. replies q \<noteq> None)
       (filter (\<lambda>q. q \<noteq> p_port p) (sorted_list_of_fset (p_peers_known p)))"

definition needed_count :: "Peer \<Rightarrow> (int \<Rightarrow> int list option) \<Rightarrow> int \<Rightarrow> int" where
  "needed_count p replies q = int (fcard (needed_of p |\<inter>| fset_of_list (the (replies q))))"

section \<open>Example states\<close>


definition peer1 :: Peer where
  "peer1 = \<lparr>p_port = 9000, p_blocks = {|0, 1|}, p_total_blocks = 4,
     p_peers_known = {|9000, 9001, 9002, 9003|}, p_allowed_peers = {|9001|},
     p_optimistic_peer = Some 9002, p_blocked_by = {||}\<rparr>"

definition files1 :: "int \<rightharpoonup> bytes" where
  "files1 = [0 \<mapsto> [1, 2], 1 \<mapsto> [3]]"

definition node1 :: PeerNode where
  "node1 = \<lparr>pn_blocks = [2], pn_total_blocks = 4, pn_known_peers = Map.empty,
     pn_tit_for_tat = \<lparr>tft_unchoked = {||}, tft_upload_rates = Map.empty,
        tft_download_rates = [], tft_optimistic_peer = None\<rparr>,
     pn_active_downloads = Map.empty\<rparr>"

definition five :: "string list" where
  "five = [''A'', ''B'', ''C'', ''D'', ''E'']"

definition strategies2 :: PeerStrategies where
  "strategies2 = fold (\<lambda>p s. set_peer_interested s p True) five (init_strategies 4 0)"

definition strategies3 :: PeerStrategies where
  "strategies3 = snd (update_unchoked_peers strategies2 five 30)"

definition strategies4 :: PeerStrategies where
  "strategies4 = snd (select_optimistic_unchoke strategies3 five 30 0)"

definition strategies5 :: PeerStrategies where
  "strategies5 = snd (update_unchoked_peers (record_download strategies4 ''A'' 0 100 True 35) five 40)"





definition replies2 :: "int \<Rightarrow> int list option" where
  "replies2 q = (if q = 9001 then Some [2] else if q = 9002 then Some [2, 3] else Some [0])"

section \<open>Block store: range and ownership checks\<close>

text \<open>
  C10. For a block id outside \<open>[0, total_blocks)\<close>, \<open>add_block\<close> returns \<open>False\<close>
  and the block manager (owned set, in-memory data, block files, saved state, and
  with them the completion status) is exactly as before the call.
\<close>

theorem add_block_out_of_range:
  assumes "block_id < 0 \<or> total_blocks bm \<le> block_id"
  shows "add_block sha256 bm block_id data = (False, bm) \<and>
         is_complete (snd (add_block sha256 bm block_id data)) = is_complete bm"
  using assms by (auto simp: add_block_def)

theorem add_block_out_of_range_witness:
  "add_block (\<lambda>_. []) store0 7 [1] = (False, store0) \<and>
   is_complete (snd (add_block (\<lambda>_. []) store0 7 [1])) = is_complete store0"
  using add_block_out_of_range [of 7 store0 "\<lambda>_. []" "[1]"]
  by (simp add: store0_def)

text \<open>
  C9. For a block id of the file (in \<open>[0, total_blocks)\<close>) that is already owned,
  \<open>add_block\<close> returns \<open>True\<close> whatever the bytes are, and the block manager is
  exactly as before: owned set, stored bytes and completion status are unchanged.
\<close>

theorem add_block_idempotent:
  assumes "block_id |\<in>| blocks_owned bm"
    and "0 \<le> block_id" and "block_id < total_blocks bm"
  shows "add_block sha256 bm block_id data = (True, bm) \<and>
         blocks_owned (snd (add_block sha256 bm block_id data)) = blocks_owned bm \<and>
         read_block (snd (add_block sha256 bm block_id data)) = read_block bm \<and>
         is_complete (snd (add_block sha256 bm block_id data)) = is_complete bm"
  using assms by (auto simp: add_block_def)

lemma store1_eq:
  "store1 = store0\<lparr>block_files := [0 \<mapsto> [1, 2]], blocks_data := [0 \<mapsto> [1, 2]],
     blocks_owned := {|0|},
     state_file := Some \<lparr>st_blocks_owned = {|0|}, st_total_blocks = 4,
       st_block_size = 1024, st_file_name = Some ''f'', st_file_hash = None\<rparr>\<rparr>"
  by (simp add: store1_def store0_def add_block_def save_state_def fcard_finsert_if fcard_fempty Let_def)

theorem add_block_idempotent_witness:
  "add_block (\<lambda>_. []) store1 0 [9] = (True, store1) \<and>
   blocks_owned (snd (add_block (\<lambda>_. []) store1 0 [9])) = blocks_owned store1 \<and>
   read_block (snd (add_block (\<lambda>_. []) store1 0 [9])) = read_block store1 \<and>
   is_complete (snd (add_block (\<lambda>_. []) store1 0 [9])) = is_complete store1"
  using add_block_idempotent [of 0 store1 "\<lambda>_. []" "[9]"]
  by (simp add: store1_eq store0_def)

section \<open>Block store: what the operations keep\<close>

lemma get_block_owned: "blocks_owned (snd (get_block bm i)) = blocks_owned bm"
  by (simp add: get_block_def split: option.splits)

lemma get_block_files: "block_files (snd (get_block bm i)) = block_files bm"
  by (simp add: get_block_def split: option.splits)

lemma get_block_read: "read_block (snd (get_block bm i)) b = read_block bm b"
  by (simp add: read_block_def get_block_def has_block_def split: option.splits)

lemma reconstruct_loop_keeps:
  "blocks_owned (snd (snd (reconstruct_loop bm ids acc))) = blocks_owned bm \<and>
   block_files (snd (snd (reconstruct_loop bm ids acc))) = block_files bm \<and>
   (\<forall>b. read_block (snd (snd (reconstruct_loop bm ids acc))) b = read_block bm b)"
proof (induction ids arbitrary: bm acc)
  case Nil
  show ?case by simp
next
  case (Cons i ids)
  obtain r bm' where g: "get_block bm i = (r, bm')"
    by (cases "get_block bm i")
  have k: "blocks_owned bm' = blocks_owned bm" "block_files bm' = block_files bm"
    "\<forall>b. read_block bm' b = read_block bm b"
    using g get_block_owned [of bm i] get_block_files [of bm i] get_block_read [of bm i]
    by auto
  show ?case
    using Cons.IH [of bm'] g k by (cases r) auto
qed

lemma read_block_cong:
  "blocks_owned a = blocks_owned b \<Longrightarrow> blocks_data a = blocks_data b \<Longrightarrow>
   block_files a = block_files b \<Longrightarrow> read_block a = read_block b"
  by (auto simp: read_block_def get_block_def has_block_def fun_eq_iff split: option.splits)

lemma reconstruct_file_keeps:
  "blocks_owned (snd (reconstruct_file sha256 bm)) = blocks_owned bm \<and>
   block_files (snd (reconstruct_file sha256 bm)) = block_files bm \<and>
   (\<forall>b. read_block (snd (reconstruct_file sha256 bm)) b = read_block bm b)"
proof -
  obtain ok content bm' where
    l: "reconstruct_loop bm (py_range (total_blocks bm)) [] = (ok, content, bm')"
    by (cases "reconstruct_loop bm (py_range (total_blocks bm)) []") auto
  have k: "blocks_owned bm' = blocks_owned bm" "block_files bm' = block_files bm"
    "\<forall>b. read_block bm' b = read_block bm b"
    using reconstruct_loop_keeps [of bm "py_range (total_blocks bm)" "[]"] l by auto
  have o: "read_block (bm'\<lparr>out_files := x\<rparr>) = read_block bm'" for x
    by (rule read_block_cong) simp_all
  show ?thesis
    using l k o
    by (auto simp: reconstruct_file_def Let_def split: option.splits)
qed

lemma save_state_keeps:
  "blocks_owned (save_state bm) = blocks_owned bm \<and>
   block_files (save_state bm) = block_files bm \<and>
   blocks_data (save_state bm) = blocks_data bm \<and>
   total_blocks (save_state bm) = total_blocks bm"
  by (simp add: save_state_def)

lemma read_block_stored:
  "block_id |\<in>| blocks_owned bm \<Longrightarrow> blocks_data bm block_id = Some d \<Longrightarrow>
   read_block bm block_id = Some d"
  by (simp add: read_block_def get_block_def has_block_def)

lemma read_block_other:
  "b \<noteq> block_id \<Longrightarrow>
   read_block (bm\<lparr>block_files := (block_files bm)(block_id \<mapsto> d),
                  blocks_data := (blocks_data bm)(block_id \<mapsto> d),
                  blocks_owned := finsert block_id (blocks_owned bm)\<rparr>) b = read_block bm b"
  by (simp add: read_block_def get_block_def has_block_def split: option.splits)

text \<open>
  The accepting branch of \<open>add_block\<close>: the result in terms of the store \<open>bm2\<close> that
  holds the new block.
\<close>

lemma add_block_accepts:
  fixes data :: bytes
  assumes "0 \<le> block_id" "block_id < total_blocks bm" "block_id |\<notin>| blocks_owned bm" "fs_ok bm"
  defines "bm2 \<equiv> bm\<lparr>block_files := (block_files bm)(block_id \<mapsto> data),
                     blocks_data := (blocks_data bm)(block_id \<mapsto> data),
                     blocks_owned := finsert block_id (blocks_owned bm)\<rparr>"
  shows "fst (add_block sha256 bm block_id data) = True"
    and "blocks_owned (snd (add_block sha256 bm block_id data)) = blocks_owned bm2"
    and "block_files (snd (add_block sha256 bm block_id data)) = block_files bm2"
    and "read_block (snd (add_block sha256 bm block_id data)) b = read_block bm2 b"
proof -
  define bm3 where "bm3 = save_state bm2"
  have s: "blocks_owned bm3 = blocks_owned bm2" "block_files bm3 = block_files bm2"
    "read_block bm3 = read_block bm2"
    using save_state_keeps [of bm2] by (auto simp: bm3_def intro: read_block_cong)
  have a: "add_block sha256 bm block_id data =
      (True, if int (fcard (blocks_owned bm3)) = total_blocks bm3
             then snd (reconstruct_file sha256 bm3) else bm3)"
    using assms(1-4) by (simp add: add_block_def Let_def bm3_def bm2_def)
  show "fst (add_block sha256 bm block_id data) = True"
    by (simp add: a)
  show "blocks_owned (snd (add_block sha256 bm block_id data)) = blocks_owned bm2"
    using s reconstruct_file_keeps [of sha256 bm3] by (simp add: a)
  show "block_files (snd (add_block sha256 bm block_id data)) = block_files bm2"
    using s reconstruct_file_keeps [of sha256 bm3] by (simp add: a)
  show "read_block (snd (add_block sha256 bm block_id data)) b = read_block bm2 b"
    using s reconstruct_file_keeps [of sha256 bm3] by (simp add: a)
qed

lemma add_block_keeps:
  "blocks_owned bm |\<subseteq>| blocks_owned (snd (add_block sha256 bm block_id data)) \<and>
   (\<forall>b. b |\<in>| blocks_owned bm \<longrightarrow>
        read_block (snd (add_block sha256 bm block_id data)) b = read_block bm b)"
proof (cases "0 \<le> block_id \<and> block_id < total_blocks bm \<and>
              block_id |\<notin>| blocks_owned bm \<and> fs_ok bm")
  case True
  have own: "blocks_owned (snd (add_block sha256 bm block_id data)) =
      finsert block_id (blocks_owned bm)"
    using True add_block_accepts(2) [of block_id bm sha256 data] by simp
  have "read_block (snd (add_block sha256 bm block_id data)) b = read_block bm b"
    if "b |\<in>| blocks_owned bm" for b
  proof -
    have "b \<noteq> block_id" using that True by auto
    then show ?thesis
      using True add_block_accepts(4) [of block_id bm sha256 data b]
        read_block_other [of b block_id bm data]
      by simp
  qed
  then show ?thesis using own by auto
next
  case False
  then have "snd (add_block sha256 bm block_id data) = bm"
    by (auto simp: add_block_def)
  then show ?thesis by simp
qed

lemma apply_op_keeps:
  assumes "\<not> is_reset x"
  shows "blocks_owned bm |\<subseteq>| blocks_owned (apply_op sha256 bm x) \<and>
         (\<forall>b. b |\<in>| blocks_owned bm \<longrightarrow> read_block (apply_op sha256 bm x) b = read_block bm b)"
proof (cases x)
  case (AddBlock block_id data)
  then show ?thesis using add_block_keeps [of bm sha256 block_id data] by simp
next
  case (GetBlock block_id)
  then show ?thesis by (simp add: get_block_owned get_block_read)
next
  case ReconstructFile
  then show ?thesis using reconstruct_file_keeps [of sha256 bm] by simp
next
  case (SetFromBitfield bitfield n)
  then show ?thesis using assms by simp
qed

section \<open>Block store: the owned set over time\<close>

text \<open>
  C6, as the code has it. Under every sequence of \<open>add_block\<close>, \<open>get_block\<close> and
  \<open>reconstruct_file\<close> calls, a block id that is owned stays owned and \<open>get_block\<close>
  keeps returning the same bytes for it. \<open>set_from_bitfield\<close> is not monotone: it
  clears the owned set and rebuilds it from the bits of its argument alone.
\<close>

theorem owned_blocks_monotone:
  assumes "\<forall>x \<in> set ops. \<not> is_reset x"
  shows "blocks_owned bm |\<subseteq>| blocks_owned (run_ops sha256 bm ops) \<and>
         (\<forall>b. b |\<in>| blocks_owned bm \<longrightarrow>
              read_block (run_ops sha256 bm ops) b = read_block bm b) \<and>
         (\<forall>b. b |\<in>| blocks_owned (set_from_bitfield bm bitfield n) \<longleftrightarrow>
              0 \<le> b \<and> b < n \<and> bitfield_has bitfield b)"
proof -
  have "blocks_owned bm |\<subseteq>| blocks_owned (run_ops sha256 bm ops) \<and>
        (\<forall>b. b |\<in>| blocks_owned bm \<longrightarrow>
             read_block (run_ops sha256 bm ops) b = read_block bm b)"
    using assms
  proof (induction ops arbitrary: bm)
    case Nil
    show ?case by (simp add: run_ops_def)
  next
    case (Cons x ops)
    have step: "blocks_owned bm |\<subseteq>| blocks_owned (apply_op sha256 bm x) \<and>
        (\<forall>b. b |\<in>| blocks_owned bm \<longrightarrow> read_block (apply_op sha256 bm x) b = read_block bm b)"
      using Cons.prems apply_op_keeps [of x bm sha256] by simp
    have rest: "blocks_owned (apply_op sha256 bm x) |\<subseteq>|
          blocks_owned (run_ops sha256 (apply_op sha256 bm x) ops) \<and>
        (\<forall>b. b |\<in>| blocks_owned (apply_op sha256 bm x) \<longrightarrow>
             read_block (run_ops sha256 (apply_op sha256 bm x) ops) b =
             read_block (apply_op sha256 bm x) b)"
      using Cons.IH [of "apply_op sha256 bm x"] Cons.prems by simp
    have unfold: "run_ops sha256 bm (x # ops) = run_ops sha256 (apply_op sha256 bm x) ops"
      by (simp add: run_ops_def)
    show ?case
      unfolding unfold using step rest by (metis fsubsetD fsubset_trans)
  qed
  moreover have "\<forall>b. b |\<in>| blocks_owned (set_from_bitfield bm bitfield n) \<longleftrightarrow>
      0 \<le> b \<and> b < n \<and> bitfield_has bitfield b"
    by (auto simp: set_from_bitfield_def py_range_def fset_of_list.rep_eq)
  ultimately show ?thesis by blast
qed

theorem owned_blocks_monotone_witness:
  "blocks_owned store1 |\<subseteq>|
     blocks_owned (run_ops (\<lambda>_. []) store1 [AddBlock 2 [7], GetBlock 0, ReconstructFile]) \<and>
   read_block (run_ops (\<lambda>_. []) store1 [AddBlock 2 [7], GetBlock 0, ReconstructFile]) 0 =
     read_block store1 0 \<and>
   2 |\<notin>| blocks_owned (set_from_bitfield store1 [0] 4)"
proof -
  have h: "\<forall>x \<in> set [AddBlock 2 [7], GetBlock 0, ReconstructFile]. \<not> is_reset x"
    by simp
  have o: "0 |\<in>| blocks_owned store1"
    by (simp add: store1_eq store0_def)
  have b: "\<not> bitfield_has [0] 2"
    by (simp add: bitfield_has_def)
  show ?thesis
    using owned_blocks_monotone [OF h, of store1 "\<lambda>_. []" "[0]" 4] o b
    by blast
qed

theorem owned_blocks_reset_counterexample:
  "blocks_owned store1 = {|0|} \<and>
   blocks_owned (run_ops (\<lambda>_. []) store1 [SetFromBitfield [0] 4]) = {||}"
  by (simp add: store1_eq store0_def run_ops_def set_from_bitfield_def py_range_def
      bitfield_has_def bit_mask_def upto.simps)

section \<open>Bitfield encoding and decoding\<close>

lemma bit_at_bit: "bit_at bf i = of_bool (bit (bf ! nat (i div 8)) (nat (7 - i mod 8)))"
  by (simp add: bit_at_def and_one_eq bit_iff_odd_drop_bit mod_2_eq_odd)

lemma bit_mask_bit: "bit (bit_mask b) m \<longleftrightarrow> m = nat (7 - b mod 8)"
proof -
  have "nat (7 - b mod 8) < 8" by (simp add: nat_less_iff)
  then show ?thesis 
    by (auto simp: bit_mask_def bit_exp_iff)
qed

lemma same_block:
  fixes i b :: int
  assumes "0 \<le> i" "0 \<le> b" "nat (i div 8) = nat (b div 8)" "nat (7 - i mod 8) = nat (7 - b mod 8)"
  shows "i = b"
proof -
  have d: "i div 8 = b div 8" using assms(1-3) by (simp add: pos_imp_zdiv_nonneg_iff)
  have "0 \<le> 7 - i mod 8" "0 \<le> 7 - b mod 8" by simp_all
  then have m: "i mod 8 = b mod 8" using assms(4) by linarith
  have "i = 8 * (i div 8) + i mod 8" by simp
  also have "\<dots> = 8 * (b div 8) + b mod 8" using d m by simp
  finally show ?thesis by simp
qed

lemma set_bits_ok:
  assumes "\<forall>b \<in> set ids. 0 \<le> b \<and> b < 8 * int (length bf)"
  shows "\<exists>bf'. set_bits ids bf = Inr bf' \<and> length bf' = length bf \<and>
     (\<forall>i. 0 \<le> i \<and> i < 8 * int (length bf) \<longrightarrow>
        bit_at bf' i = (if bit_at bf i = 1 \<or> i \<in> set ids then 1 else 0))"
  using assms
proof (induction ids arbitrary: bf)
  case Nil
  show ?case by (simp add: bit_at_bit)
next
  case (Cons b ids)
  define j where "j = nat (b div 8)"
  define bf1 where "bf1 = bf[j := (bf ! j) OR bit_mask b]"
  have b: "0 \<le> b" "b < 8 * int (length bf)" using Cons.prems by auto
  have jn: "0 \<le> b div 8" "b div 8 < int (length bf)" "j < length bf"
    using b by (auto simp: j_def pos_imp_zdiv_nonneg_iff)
  have step: "set_bits (b # ids) bf = set_bits ids bf1"
    using jn by (simp add: Let_def bf1_def j_def)
  have len: "length bf1 = length bf" by (simp add: bf1_def)
  have one: "bit_at bf1 i = (if bit_at bf i = 1 \<or> i = b then 1 else 0)"
    if "0 \<le> i" "i < 8 * int (length bf)" for i
  proof (cases "nat (i div 8) = j")
    case True
    then have "bf1 ! nat (i div 8) = (bf ! j) OR bit_mask b"
      using jn by (simp add: bf1_def)
    then show ?thesis
      using True same_block [of i b] that(1) b(1)
      by (auto simp: bit_at_bit bit_or_iff bit_mask_bit j_def)
  next
    case False
    then have "bf1 ! nat (i div 8) = bf ! nat (i div 8)"
      by (simp add: bf1_def)
    moreover have "i \<noteq> b" using False by (auto simp: j_def)
    ultimately show ?thesis by (simp add: bit_at_bit)
  qed
  obtain bf' where r: "set_bits ids bf1 = Inr bf'" "length bf' = length bf1"
    "\<forall>i. 0 \<le> i \<and> i < 8 * int (length bf1) \<longrightarrow>
        bit_at bf' i = (if bit_at bf1 i = 1 \<or> i \<in> set ids then 1 else 0)"
    using Cons.IH [of bf1] Cons.prems len by auto
  show ?case
    using r step len one by auto
qed

lemma bit_at_zero: "0 \<le> i \<Longrightarrow> nat (i div 8) < n \<Longrightarrow> bit_at (replicate n 0) i = 0"
  by (simp add: bit_at_bit)

lemma get_bitfield_ok:
  assumes "0 \<le> total_blocks bm"
    and "\<forall>b. b |\<in>| blocks_owned bm \<longrightarrow> 0 \<le> b \<and> b < total_blocks bm"
  shows "\<exists>bf. get_bitfield bm = Inr bf \<and>
           int (length bf) = \<lceil>of_int (total_blocks bm) / (8::rat)\<rceil> \<and>
           (\<forall>i. 0 \<le> i \<and> i < 8 * int (length bf) \<longrightarrow>
              bit_at bf i = (if i |\<in>| blocks_owned bm then 1 else 0))"
proof (cases "total_blocks bm = 0")
  case True
  then show ?thesis by (auto simp: get_bitfield_def)
next
  case False
  define n where "n = nat ((total_blocks bm + 7) div 8)"
  define ids where "ids = sorted_list_of_fset (blocks_owned bm)"
  have sz: "0 \<le> (total_blocks bm + 7) div 8" using assms(1) by simp
  have n8: "total_blocks bm \<le> 8 * int n" using sz unfolding n_def by linarith
  have g: "get_bitfield bm = set_bits ids (replicate n 0)"
    using False sz by (simp add: get_bitfield_def Let_def n_def ids_def)
  have ids: "set ids = fset (blocks_owned bm)" by (simp add: ids_def)
  have rng: "\<forall>b \<in> set ids. 0 \<le> b \<and> b < 8 * int (length (replicate n (0::byte)))"
    using assms(2) n8 ids by auto
  obtain bf where r: "set_bits ids (replicate n 0) = Inr bf" "length bf = n"
    "\<forall>i. 0 \<le> i \<and> i < 8 * int n \<longrightarrow>
        bit_at bf i = (if bit_at (replicate n 0) i = 1 \<or> i \<in> set ids then 1 else 0)"
    using set_bits_ok [OF rng] by auto
  have z: "bit_at (replicate n 0) i \<noteq> 1" if "0 \<le> i" "i < 8 * int n" for i
  proof -
    have "nat (i div 8) < n" using that by linarith
    then show ?thesis using that bit_at_zero [of i n] by simp
  qed
  have c: "int n = \<lceil>of_int (total_blocks bm) / (8::rat)\<rceil>"
    using sz unfolding n_def by linarith
  show ?thesis
    using g r z c ids by auto
qed


lemma bitfield_has_bit_at:
  "0 \<le> i \<Longrightarrow> i < 8 * int (length rb) \<Longrightarrow> bitfield_has rb i \<longleftrightarrow> bit_at rb i = 1"
  by (auto simp: bitfield_has_def bit_at_bit bit_mask_def and_exp_eq_0_iff_not_bit)

lemma decode_bitfield_iff:
  "i |\<in>| decode_bitfield rb \<longleftrightarrow> 0 \<le> i \<and> i < 8 * int (length rb) \<and> bit_at rb i = 1"
  using bitfield_has_bit_at [of i rb]
  by (auto simp: decode_bitfield_def py_range_def fset_of_list.rep_eq)

text \<open>
  C8, as the code has it. For an owned set within \<open>[0, N)\<close>, \<open>get_bitfield\<close>
  returns \<open>\<lceil>N/8\<rceil>\<close> bytes in which the bit read as
  \<open>(byte[i/8] >> (7 - (i%8))) & 1\<close> is 1 exactly for the owned ids, so every bit
  beyond \<open>N-1\<close> is zero. The decoder of a received BITFIELD rejects nothing: for every
  byte string it records as advertised exactly the positions below \<open>8 * len\<close> whose
  bit is 1, trailing or not.
\<close>

theorem bitfield_encoding:
  assumes "0 \<le> total_blocks bm"
    and "\<forall>b. b |\<in>| blocks_owned bm \<longrightarrow> 0 \<le> b \<and> b < total_blocks bm"
  shows "(\<exists>bf. get_bitfield bm = Inr bf \<and>
           int (length bf) = \<lceil>of_int (total_blocks bm) / (8::rat)\<rceil> \<and>
           (\<forall>i. 0 \<le> i \<and> i < 8 * int (length bf) \<longrightarrow>
              bit_at bf i = (if i |\<in>| blocks_owned bm then 1 else 0))) \<and>
         (\<forall>c rb. conn_blocks_owned (update_connection c (BITFIELD (Some rb))) = decode_bitfield rb) \<and>
         (\<forall>rb i. i |\<in>| decode_bitfield rb \<longleftrightarrow>
              0 \<le> i \<and> i < 8 * int (length rb) \<and> bit_at rb i = 1)"
  using get_bitfield_ok [OF assms] decode_bitfield_iff by simp

theorem bitfield_encoding_witness:
  "(\<exists>bf. get_bitfield store1 = Inr bf \<and>
           int (length bf) = \<lceil>of_int (total_blocks store1) / (8::rat)\<rceil> \<and>
           (\<forall>i. 0 \<le> i \<and> i < 8 * int (length bf) \<longrightarrow>
              bit_at bf i = (if i |\<in>| blocks_owned store1 then 1 else 0))) \<and>
   (\<forall>c rb. conn_blocks_owned (update_connection c (BITFIELD (Some rb))) = decode_bitfield rb) \<and>
   (\<forall>rb i. i |\<in>| decode_bitfield rb \<longleftrightarrow>
              0 \<le> i \<and> i < 8 * int (length rb) \<and> bit_at rb i = 1)"
  using bitfield_encoding [of store1]
  by (simp add: store1_eq store0_def)

theorem bitfield_decoder_counterexample:
  "conn_blocks_owned (update_connection conn0 (BITFIELD (Some [255]))) = {|0, 1, 2, 3, 4, 5, 6, 7|} \<and>
   blocks_owned (set_from_bitfield store0 [255] 1) = {|0|}"
  by code_simp

section \<open>Split and assemble round trip\<close>

lemma concat_read_chunks: "n \<noteq> 0 \<Longrightarrow> concat (read_chunks n content) = content"
proof (induction n content rule: read_chunks.induct)
  case (1 n content)
  show ?case
  proof (cases "fst (file_read n content) = []")
    case True
    then have "content = []" using 1(2) by (auto simp: file_read_def split: if_splits)
    then show ?thesis using True by (simp add: read_chunks.simps)
  next
    case False
    have "fst (file_read n content) @ snd (file_read n content) = content"
      by (simp add: file_read_def)
    then show ?thesis
      using False 1 by (simp add: read_chunks.simps [of n content])
  qed
qed

lemma read_chunks_sizes:
  "0 < n \<Longrightarrow> chunk \<in> set (read_chunks n content) \<Longrightarrow> chunk \<noteq> [] \<and> int (length chunk) \<le> n"
proof (induction n content rule: read_chunks.induct)
  case (1 n content)
  show ?case
  proof (cases "fst (file_read n content) = []")
    case True
    then show ?thesis using 1(3) by (simp add: read_chunks.simps [of n content])
  next
    case False
    have "int (length (fst (file_read n content))) \<le> n"
      using 1(2) by (simp add: file_read_def)
    then show ?thesis
      using False 1 by (auto simp: read_chunks.simps [of n content])
  qed
qed

lemma read_chunks_full:
  "0 < n \<Longrightarrow> chunk \<in> set (butlast (read_chunks n content)) \<Longrightarrow> int (length chunk) = n"
proof (induction n content rule: read_chunks.induct)
  case (1 n content)
  show ?case
  proof (cases "fst (file_read n content) = []")
    case True
    then show ?thesis using 1(3) by (simp add: read_chunks.simps [of n content])
  next
    case False
    note ne = this
    show ?thesis
    proof (cases "read_chunks n (snd (file_read n content)) = []")
      case True
      then show ?thesis using ne 1(3) by (simp add: read_chunks.simps [of n content])
    next
      case False
      then have "snd (file_read n content) \<noteq> []"
        by (auto simp: read_chunks.simps [of n "[]"] file_read_def)
      then have "int (length (fst (file_read n content))) = n"
        using 1(2) by (auto simp: file_read_def)
      then show ?thesis
        using ne False 1 by (auto simp: read_chunks.simps [of n content])
    qed
  qed
qed

lemma write_blocks_below: "k < i \<Longrightarrow> write_blocks folder i chunks k = folder k"
  by (induction chunks arbitrary: folder i) auto

lemma read_written:
  "read_blocks (write_blocks folder i chunks) [i..i + int (length chunks) - 1] = Inr (concat chunks)"
proof (induction chunks arbitrary: folder i)
  case Nil
  show ?case by simp
next
  case (Cons c chunks)
  have u: "[i..i + int (length (c # chunks)) - 1] = i # [i + 1..(i + 1) + int (length chunks) - 1]"
    by (simp add: upto_rec1)
  have h: "write_blocks (folder(i \<mapsto> c)) (i + 1) chunks i = Some c"
    by (simp add: write_blocks_below)
  show ?case
    unfolding u using h Cons.IH [of "folder(i \<mapsto> c)" "i + 1"]
    by (simp del: fun_upd_apply)
qed

lemma sort_permutation: "mset ids = mset [0..n - 1] \<Longrightarrow> sort ids = [0..n - (1::int)]"
  by (rule properties_for_sort) simp_all

lemma sorted_enumerated: "sorted (zip [i..j] (chunks :: bytes list))"
proof -
  have "zip [i..j] chunks ! a \<le> zip [i..j] chunks ! b"
    if "a \<le> b" "b < length (zip [i..j] chunks)" for a b
  proof (cases "a = b")
    case True
    then show ?thesis by simp
  next
    case False
    have "i + int a \<le> j" "i + int b \<le> j" using that by auto
    then have "[i..j] ! a = i + int a" "[i..j] ! b = i + int b"
      by (simp_all add: nth_upto)
    then have "[i..j] ! a < [i..j] ! b" using False that by simp
    then show ?thesis using that by (simp add: less_eq_prod_def)
  qed
  then show ?thesis by (simp add: sorted_iff_nth_mono del: length_zip)
qed

lemma reconstruct_enumerated:
  assumes "mset blocks = mset (zip [0..int (length chunks) - 1] chunks)"
  shows "reconstruct_file_from_blocks blocks = concat chunks"
proof -
  let ?e = "zip [0..int (length chunks) - 1] chunks"
  have len: "length [0..int (length chunks) - 1] = length chunks" by simp
  have "sort blocks = ?e"
    by (rule properties_for_sort) (simp_all add: assms sorted_enumerated)
  then show ?thesis using len by (simp add: reconstruct_file_from_blocks_def)
qed


text \<open>
  C7. For every byte sequence and every block size \<open>B > 0\<close>, splitting into
  consecutive blocks of size \<open>B\<close> (every block but the last of exactly \<open>B\<close> bytes, the
  last one shorter or equal and never empty, no padding) and assembling the blocks in
  ascending block-id order gives back the original bytes: for \<open>partition_file\<close> and
  \<open>assemble_file\<close> whatever the order in which the block numbers are handed over, for
  \<open>split_file_to_blocks\<close> and \<open>reconstruct_file_from_blocks\<close> whatever the order of
  the dictionary, and for \<open>split_file\<close> and \<open>reconstruct_file\<close>.
\<close>

theorem split_then_assemble:
  assumes "0 < B"
  shows "(\<forall>block_numbers.
            mset block_numbers = mset (py_range (fst (partition_file content folder B))) \<longrightarrow>
            assemble_file block_numbers (snd (partition_file content folder B)) = Inr content) \<and>
         concat (split_file_to_blocks content B) = content \<and>
         (\<forall>chunk \<in> set (split_file_to_blocks content B). chunk \<noteq> [] \<and> int (length chunk) \<le> B) \<and>
         (\<forall>chunk \<in> set (butlast (split_file_to_blocks content B)). int (length chunk) = B) \<and>
         (\<forall>blocks.
            mset blocks = mset (zip (py_range (int (length (split_file_to_blocks content B))))
                                    (split_file_to_blocks content B)) \<longrightarrow>
            reconstruct_file_from_blocks blocks = content) \<and>
         fm_reconstruct_file (fst (fst (split_file sha256 content folder B)))
            (snd (fst (split_file sha256 content folder B)))
            (snd (split_file sha256 content folder B)) = Inr content"
proof -
  define chunks where "chunks = read_chunks B content"
  have c: "concat chunks = content"
    using assms concat_read_chunks [of B content] by (simp add: chunks_def)
  have w: "read_blocks (write_blocks folder 0 chunks) (py_range (int (length chunks))) = Inr content"
    using read_written [of folder 0 chunks] c by (simp add: py_range_def)
  have a: "assemble_file block_numbers (write_blocks folder 0 chunks) = Inr content"
    if "mset block_numbers = mset (py_range (int (length chunks)))" for block_numbers
    using that w sort_permutation [of block_numbers "int (length chunks)"]
    by (simp add: assemble_file_def py_range_def)
  have r: "reconstruct_file_from_blocks blocks = content"
    if "mset blocks = mset (zip (py_range (int (length chunks))) chunks)" for blocks
    using that reconstruct_enumerated [of blocks chunks] c by (simp add: py_range_def)
  show ?thesis
    using a c r w assms read_chunks_sizes [of B _ content] read_chunks_full [of B _ content]
    by (auto simp: partition_file_def split_file_to_blocks_def split_file_def
        fm_reconstruct_file_def Let_def chunks_def)
qed

theorem split_then_assemble_witness:
  "assemble_file [2, 0, 1] (snd (partition_file [1, 2, 3, 4, 5] Map.empty 2)) = Inr [1, 2, 3, 4, 5] \<and>
   split_file_to_blocks [1, 2, 3, 4, 5] 2 = [[1, 2], [3, 4], [5]] \<and>
   concat (split_file_to_blocks [1, 2, 3, 4, 5] 2) = [1, 2, 3, 4, 5] \<and>
   reconstruct_file_from_blocks [(1, [3, 4]), (2, [5]), (0, [1, 2])] = [1, 2, 3, 4, 5] \<and>
   fm_reconstruct_file (fst (fst (split_file (\<lambda>_. []) [1, 2, 3, 4, 5] Map.empty 2)))
      (snd (fst (split_file (\<lambda>_. []) [1, 2, 3, 4, 5] Map.empty 2)))
      (snd (split_file (\<lambda>_. []) [1, 2, 3, 4, 5] Map.empty 2)) = Inr [1, 2, 3, 4, 5]"
proof -
  have h: "(0::int) < 2" by simp
  have s: "read_chunks 2 [1, 2, 3, 4, 5] = [[1, 2], [3, 4], [5]]"
    by (simp add: read_chunks.simps file_read_def)
  have m: "mset [2, 0, 1] = mset (py_range 3)"
    by (simp add: py_range_def upto.simps)
  have z: "mset [(1, [3, 4]), (2, [5]), (0, [1, 2])] =
      mset (zip (py_range 3) [[1, 2], [3, 4], [5 :: byte]])"
    by (simp add: py_range_def upto.simps)
  show ?thesis
    using split_then_assemble [OF h, of "[1, 2, 3, 4, 5]" Map.empty "\<lambda>_. []"] s m z
    by (simp add: partition_file_def split_file_to_blocks_def)
qed

section \<open>Received pieces\<close>

lemma record_download_failed:
  "counter_get (failed_requests (record_download s peer_id block_id n False now)) peer_id =
     counter_get (failed_requests s) peer_id + 1 \<and>
   (\<forall>q. q \<noteq> peer_id \<longrightarrow>
      failed_requests (record_download s peer_id block_id n False now) q = failed_requests s q) \<and>
   download_history (record_download s peer_id block_id n False now) = download_history s \<and>
   successful_downloads (record_download s peer_id block_id n False now) = successful_downloads s"
  by (simp add: record_download_def update_download_rate_def counter_get_def Let_def)

text \<open>
  C1, as the code has it. \<open>add_block\<close> holds no per-block hash and checks none: for
  an id of the file that is not owned yet (and a writable block directory) it
  returns \<open>True\<close> and persists the bytes it is given, whatever they are. When a
  download is recorded as failed (\<open>record_download\<close> with \<open>success = False\<close>), the
  failed-request counter of that peer grows by exactly 1, the counters of the other
  peers, the download history (the rate ledger) and the successful-download counters
  stay as they were.
\<close>

theorem piece_without_hash_check:
  assumes "0 \<le> block_id" and "block_id < total_blocks bm"
    and "block_id |\<notin>| blocks_owned bm" and "fs_ok bm"
  shows "fst (add_block sha256 bm block_id data) = True \<and>
         block_id |\<in>| blocks_owned (snd (add_block sha256 bm block_id data)) \<and>
         read_block (snd (add_block sha256 bm block_id data)) block_id = Some data \<and>
         block_files (snd (add_block sha256 bm block_id data)) block_id = Some data \<and>
         counter_get (failed_requests (record_download s peer_id block_id n False now)) peer_id =
           counter_get (failed_requests s) peer_id + 1 \<and>
         (\<forall>q. q \<noteq> peer_id \<longrightarrow>
            failed_requests (record_download s peer_id block_id n False now) q =
            failed_requests s q) \<and>
         download_history (record_download s peer_id block_id n False now) = download_history s \<and>
         successful_downloads (record_download s peer_id block_id n False now) =
           successful_downloads s"
proof -
  define bm2 where "bm2 = bm\<lparr>block_files := (block_files bm)(block_id \<mapsto> data),
      blocks_data := (blocks_data bm)(block_id \<mapsto> data),
      blocks_owned := finsert block_id (blocks_owned bm)\<rparr>"
  have "read_block bm2 block_id = Some data"
    by (rule read_block_stored) (simp_all add: bm2_def)
  then show ?thesis
    using add_block_accepts(1-3) [OF assms, of sha256 data]
      add_block_accepts(4) [OF assms, of sha256 data block_id]
      record_download_failed [of s peer_id block_id n now]
    by (simp add: bm2_def)
qed

theorem piece_without_hash_check_witness:
  "fst (add_block plain_digest store0 2 [7]) = True \<and>
   2 |\<in>| blocks_owned (snd (add_block plain_digest store0 2 [7])) \<and>
   read_block (snd (add_block plain_digest store0 2 [7])) 2 = Some [7] \<and>
   block_files (snd (add_block plain_digest store0 2 [7])) 2 = Some [7] \<and>
   counter_get (failed_requests (record_download (init_strategies 4 0) ''Z'' 2 1 False 5)) ''Z'' =
     counter_get (failed_requests (init_strategies 4 0)) ''Z'' + 1 \<and>
   download_history (record_download (init_strategies 4 0) ''Z'' 2 1 False 5) =
     download_history (init_strategies 4 0) \<and>
   successful_downloads (record_download (init_strategies 4 0) ''Z'' 2 1 False 5) =
     successful_downloads (init_strategies 4 0)"
  using piece_without_hash_check [of 2 store0 plain_digest "[7]" "init_strategies 4 0" "''Z''" 1 5]
  by (simp add: store0_def)

theorem bad_hash_accepted_counterexample:
  "\<not> validate_block plain_digest (map plain_digest [[1], [2], [3], [4]]) 0 [9] \<and>
   fst (add_block plain_digest store0 0 [9]) = True \<and>
   0 |\<in>| blocks_owned (snd (add_block plain_digest store0 0 [9])) \<and>
   read_block (snd (add_block plain_digest store0 0 [9])) 0 = Some [9] \<and>
   block_files (snd (add_block plain_digest store0 0 [9])) 0 = Some [9]"
  by (simp add: validate_block_def plain_digest_def store0_def add_block_def save_state_def
      read_block_def get_block_def has_block_def fcard_finsert_if fcard_fempty Let_def)


section \<open>Serving requests\<close>

text \<open>
  C2, as the code has it. In \<open>minibit-final\<close> a block request is answered with the
  bytes of the block file when the requester is in the allowed set or is the
  optimistic peer, and the block is owned; in every other case the answer is the
  \<open>CHOKED\<close> sentinel. That peer keeps no upload counter. In \<open>peer_node.py\<close> the
  handler does not consult the unchoke set: a request for an owned block is served
  whoever sends it and the upload counter of the sender becomes the number of bytes
  sent; a request for a block that is not owned gets no answer and changes nothing.
\<close>

theorem request_authorization:
  shows "((q |\<in>| p_allowed_peers p \<or> p_optimistic_peer p = Some q) \<and> b |\<in>| p_blocks p \<and>
            files b = Some d \<longrightarrow>
            peer_handle_request p files (BlockRequest q b) = Some (SendBytes d)) \<and>
         (\<not> ((q |\<in>| p_allowed_peers p \<or> p_optimistic_peer p = Some q) \<and> b |\<in>| p_blocks p) \<longrightarrow>
            peer_handle_request p files (BlockRequest q b) = Some (SendBytes CHOKED)) \<and>
         (b \<in> set (pn_blocks pn) \<and> files b = Some d \<longrightarrow>
            fst (peer_node_handle_request pn files (RequestBlock b sender_id)) = Some d \<and>
            tft_upload_rates (pn_tit_for_tat (snd (peer_node_handle_request pn files (RequestBlock b sender_id))))
              sender_id = Some (int (length d))) \<and>
         (b \<notin> set (pn_blocks pn) \<longrightarrow>
            peer_node_handle_request pn files (RequestBlock b sender_id) = (None, pn))"
  by (auto simp: peer_handle_request_def peer_node_handle_request_def tft_update_upload_rate_def)


theorem request_authorization_witness:
  "peer_handle_request peer1 files1 (BlockRequest 9001 0) = Some (SendBytes [1, 2]) \<and>
   peer_handle_request peer1 files1 (BlockRequest 9002 1) = Some (SendBytes [3]) \<and>
   peer_handle_request peer1 files1 (BlockRequest 9003 0) = Some (SendBytes CHOKED) \<and>
   peer_handle_request peer1 files1 (BlockRequest 9001 2) = Some (SendBytes CHOKED) \<and>
   fst (peer_node_handle_request node1 [2 \<mapsto> [5, 6]] (RequestBlock 2 ''Y'')) = Some [5, 6] \<and>
   peer_node_handle_request node1 [2 \<mapsto> [5, 6]] (RequestBlock 3 ''Y'') = (None, node1)"
proof -
  have 1: "peer_handle_request peer1 files1 (BlockRequest 9001 0) = Some (SendBytes [1, 2])"
    using request_authorization [of 9001 peer1 0 files1 "[1, 2]" node1 "''Y''"]
    by (simp add: peer1_def files1_def)
  have 2: "peer_handle_request peer1 files1 (BlockRequest 9002 1) = Some (SendBytes [3])"
    using request_authorization [of 9002 peer1 1 files1 "[3]" node1 "''Y''"]
    by (simp add: peer1_def files1_def)
  have 3: "peer_handle_request peer1 files1 (BlockRequest 9003 0) = Some (SendBytes CHOKED)"
    using request_authorization [of 9003 peer1 0 files1 "[1, 2]" node1 "''Y''"]
    by (simp add: peer1_def)
  have 4: "peer_handle_request peer1 files1 (BlockRequest 9001 2) = Some (SendBytes CHOKED)"
    using request_authorization [of 9001 peer1 2 files1 "[1, 2]" node1 "''Y''"]
    by (simp add: peer1_def)
  have 5: "fst (peer_node_handle_request node1 [2 \<mapsto> [5, 6]] (RequestBlock 2 ''Y'')) = Some [5, 6]"
    using request_authorization [of 9001 peer1 2 "[2 \<mapsto> [5, 6]]" "[5, 6]" node1 "''Y''"]
    by (simp add: node1_def)
  have 6: "peer_node_handle_request node1 [2 \<mapsto> [5, 6]] (RequestBlock 3 ''Y'') = (None, node1)"
    using request_authorization [of 9001 peer1 3 "[2 \<mapsto> [5, 6]]" "[5, 6]" node1 "''Y''"]
    by (simp add: node1_def)
  show ?thesis using 1 2 3 4 5 6 by simp
qed

theorem request_served_while_choked_counterexample:
  "''Y'' |\<notin>| tft_unchoked (pn_tit_for_tat node1) \<and>
   tft_optimistic_peer (pn_tit_for_tat node1) = None \<and>
   fst (peer_node_handle_request node1 [2 \<mapsto> [5, 6]] (RequestBlock 2 ''Y'')) = Some [5, 6] \<and>
   tft_upload_rates (pn_tit_for_tat node1) ''Y'' = None \<and>
   tft_upload_rates (pn_tit_for_tat
      (snd (peer_node_handle_request node1 [2 \<mapsto> [5, 6]] (RequestBlock 2 ''Y'')))) ''Y'' = Some 2"
  by (simp add: node1_def peer_node_handle_request_def tft_update_upload_rate_def)

section \<open>Rarest first\<close>











section \<open>Choking: ranking and ticks\<close>

lemma fcard_of_list: "fcard (fset_of_list xs) \<le> length xs"
  by (simp add: fcard.rep_eq fset_of_list.rep_eq card_length)

lemma top_of_rev_sort:
  fixes xs :: "'a::linorder list"
  assumes "a \<in> set (take k (rev (sort xs)))" and "b \<in> set xs"
    and "b \<notin> set (take k (rev (sort xs)))"
  shows "b \<le> a"
proof -
  define r where "r = rev (sort xs)"
  have "sorted_wrt (\<lambda>x y. y \<le> x) r"
    by (simp add: r_def sorted_wrt_rev)
  then have "sorted_wrt (\<lambda>x y. y \<le> x) (take k r @ drop k r)" by simp
  then have "\<forall>x \<in> set (take k r). \<forall>y \<in> set (drop k r). y \<le> x"
    unfolding sorted_wrt_append by blast
  moreover have "set r = set (take k r) \<union> set (drop k r)"
    by (metis append_take_drop_id set_append)
  then have "b \<in> set (drop k r)" using assms(2,3) by (auto simp: r_def)
  ultimately show ?thesis using assms(1) by (auto simp: r_def)
qed


lemma score_after_stamp:
  "calculate_tit_for_tat_score (s\<lparr>last_unchoke_update := x\<rparr>) p now =
   calculate_tit_for_tat_score s p now"
  by (simp add: calculate_tit_for_tat_score_def)

text \<open>The regular tick, by cases.\<close>

lemma update_unchoked_peers_idle:
  assumes "now - last_unchoke_update s < unchoke_interval s"
  shows "update_unchoked_peers s connected_peers now = (({||}, {||}), s)"
  using assms by (simp add: update_unchoked_peers_def)

lemma update_unchoked_peers_nobody:
  assumes "\<not> now - last_unchoke_update s < unchoke_interval s"
    and "filter (\<lambda>p. p |\<in>| interested_peers s) connected_peers = []"
  shows "snd (update_unchoked_peers s connected_peers now) = s\<lparr>last_unchoke_update := now\<rparr>"
  using assms by (simp add: update_unchoked_peers_def)

lemma update_unchoked_peers_ranked:
  assumes "\<not> now - last_unchoke_update s < unchoke_interval s"
    and "filter (\<lambda>p. p |\<in>| interested_peers s) connected_peers \<noteq> []"
  shows "snd (update_unchoked_peers s connected_peers now) =
     s\<lparr>last_unchoke_update := now,
        unchoked_peers := fset_of_list (map snd (take (nat (max_unchoked s))
           (rev (sort (map (\<lambda>p. (calculate_tit_for_tat_score s p now, p))
              (filter (\<lambda>p. p |\<in>| interested_peers s) connected_peers))))))\<rparr>"
  using assms by (simp add: update_unchoked_peers_def Let_def score_after_stamp)

lemma regular_tick_strategies:
  fixes s :: PeerStrategies
  assumes "\<not> now - last_unchoke_update s < unchoke_interval s"
    and "filter (\<lambda>p. p |\<in>| interested_peers s) connected_peers \<noteq> []"
  defines "U \<equiv> unchoked_peers (snd (update_unchoked_peers s connected_peers now))"
  shows "\<forall>a. a |\<in>| U \<longrightarrow> a \<in> set connected_peers \<and> a |\<in>| interested_peers s"
    and "fcard U \<le> nat (max_unchoked s)"
    and "\<forall>a b. a |\<in>| U \<and> b \<in> set connected_peers \<and> b |\<in>| interested_peers s \<and> b |\<notin>| U \<longrightarrow>
           (calculate_tit_for_tat_score s b now, b) \<le> (calculate_tit_for_tat_score s a now, a)"
    and "length (filter (\<lambda>p. p |\<in>| interested_peers s) connected_peers) \<le> nat (max_unchoked s) \<longrightarrow>
           U = fset_of_list (filter (\<lambda>p. p |\<in>| interested_peers s) connected_peers)"
proof -
  define elig where "elig = filter (\<lambda>p. p |\<in>| interested_peers s) connected_peers"
  define scores where "scores = map (\<lambda>p. (calculate_tit_for_tat_score s p now, p)) elig"
  define top where "top = take (nat (max_unchoked s)) (rev (sort scores))"
  have U: "U = fset_of_list (map snd top)"
    using update_unchoked_peers_ranked [OF assms(1,2)]
    by (simp add: U_def top_def scores_def elig_def)
  have sub: "set top \<subseteq> set scores"
    using set_take_subset [of "nat (max_unchoked s)" "rev (sort scores)"] by (simp add: top_def)
  have mem: "a |\<in>| U \<longleftrightarrow> (calculate_tit_for_tat_score s a now, a) \<in> set top" for a
  proof
    assume "a |\<in>| U"
    then obtain x where "(x, a) \<in> set top" by (auto simp: U fset_of_list.rep_eq)
    then show "(calculate_tit_for_tat_score s a now, a) \<in> set top"
      using sub by (auto simp: scores_def)
  next
    assume "(calculate_tit_for_tat_score s a now, a) \<in> set top"
    then show "a |\<in>| U" by (force simp: U fset_of_list.rep_eq)
  qed
  show "\<forall>a. a |\<in>| U \<longrightarrow> a \<in> set connected_peers \<and> a |\<in>| interested_peers s"
    using mem sub by (auto simp: scores_def elig_def)
  have "fcard U \<le> length (map snd top)" unfolding U by (rule fcard_of_list)
  then show "fcard U \<le> nat (max_unchoked s)" by (simp add: top_def)
  show "\<forall>a b. a |\<in>| U \<and> b \<in> set connected_peers \<and> b |\<in>| interested_peers s \<and> b |\<notin>| U \<longrightarrow>
           (calculate_tit_for_tat_score s b now, b) \<le> (calculate_tit_for_tat_score s a now, a)"
  proof (intro allI impI)
    fix a b
    assume h: "a |\<in>| U \<and> b \<in> set connected_peers \<and> b |\<in>| interested_peers s \<and> b |\<notin>| U"
    have "(calculate_tit_for_tat_score s a now, a) \<in> set top" using h mem by simp
    moreover have "(calculate_tit_for_tat_score s b now, b) \<in> set scores"
      using h by (auto simp: scores_def elig_def)
    moreover have "(calculate_tit_for_tat_score s b now, b) \<notin> set top" using h mem by simp
    ultimately show "(calculate_tit_for_tat_score s b now, b) \<le> (calculate_tit_for_tat_score s a now, a)"
      unfolding top_def by (rule top_of_rev_sort)
  qed
  show "length (filter (\<lambda>p. p |\<in>| interested_peers s) connected_peers) \<le> nat (max_unchoked s) \<longrightarrow>
           U = fset_of_list (filter (\<lambda>p. p |\<in>| interested_peers s) connected_peers)"
  proof
    assume "length (filter (\<lambda>p. p |\<in>| interested_peers s) connected_peers) \<le> nat (max_unchoked s)"
    then have "top = rev (sort scores)" by (simp add: top_def scores_def elig_def)
    then have "set (map snd top) = set elig" by (force simp: scores_def)
    then show "U = fset_of_list (filter (\<lambda>p. p |\<in>| interested_peers s) connected_peers)"
      unfolding U elig_def by (metis fset_of_list.rep_eq fset_inject)
  qed
qed



text \<open>The round of \<open>minibit-final\<close>, by cases.\<close>

lemma get_blocks_in_network_keeps:
  "p_blocks (snd (get_blocks_in_network p replies)) = p_blocks p \<and>
   p_total_blocks (snd (get_blocks_in_network p replies)) = p_total_blocks p \<and>
   p_port (snd (get_blocks_in_network p replies)) = p_port p \<and>
   snd (fst (get_blocks_in_network p replies)) =
     map (\<lambda>q. (q, fset_of_list (the (replies q)))) (answering p replies)"
  by (simp add: get_blocks_in_network_def Let_def answering_def)

lemma update_peers_idle:
  "p_peers_known p = {||} \<Longrightarrow> update_peers p replies shuffle draw = p"
  by (simp add: update_peers_def)

lemma update_peers_seeding:
  assumes "p_peers_known p \<noteq> {||}" and "needed_of p = {||}"
  shows "\<exists>others. p_allowed_peers (update_peers p replies shuffle draw) =
            fset_of_list (take (nat (min 4 (int (length others)))) (shuffle others)) \<and>
         p_optimistic_peer (update_peers p replies shuffle draw) = None"
  using assms get_blocks_in_network_keeps [of p replies]
  by (auto simp: update_peers_def Let_def needed_of_def MAX_UNCHOKED_def)

lemma update_peers_busy:
  fixes p :: Peer and replies :: "int \<Rightarrow> int list option"
  assumes "p_peers_known p \<noteq> {||}" and "needed_of p \<noteq> {||}"
  defines "ranked \<equiv> map fst (sorted_desc snd
     (map (\<lambda>q. (q, needed_count p replies q)) (answering p replies)))"
  shows "p_allowed_peers (update_peers p replies shuffle draw) = fset_of_list (take 4 ranked)"
    and "p_optimistic_peer (update_peers p replies shuffle draw) =
           (if filter (\<lambda>q. q |\<notin>| fset_of_list (take 4 ranked)) ranked = [] then None
            else Some (filter (\<lambda>q. q |\<notin>| fset_of_list (take 4 ranked)) ranked !
                   (draw mod length (filter (\<lambda>q. q |\<notin>| fset_of_list (take 4 ranked)) ranked))))"
  using assms(1,2) get_blocks_in_network_keeps [of p replies]
  by (simp_all add: update_peers_def Let_def needed_of_def MAX_UNCHOKED_def py_slice_to_def
      needed_count_def ranked_def comp_def)

lemma update_peers_invariant:
  assumes "fcard (p_allowed_peers p) \<le> 4"
    and "\<forall>q. p_optimistic_peer p = Some q \<longrightarrow> q |\<notin>| p_allowed_peers p"
  shows "fcard (p_allowed_peers (update_peers p replies shuffle draw)) \<le> 4 \<and>
         (\<forall>q. p_optimistic_peer (update_peers p replies shuffle draw) = Some q \<longrightarrow>
              q |\<notin>| p_allowed_peers (update_peers p replies shuffle draw))"
proof (cases "p_peers_known p = {||}")
  case True
  then show ?thesis using assms by (simp add: update_peers_idle)
next
  case False
  note known = this
  show ?thesis
  proof (cases "needed_of p = {||}")
    case True
    obtain others where o: "p_allowed_peers (update_peers p replies shuffle draw) =
            fset_of_list (take (nat (min 4 (int (length others)))) (shuffle others))"
      "p_optimistic_peer (update_peers p replies shuffle draw) = None"
      using update_peers_seeding [OF known True] by blast
    define sel where "sel = take (nat (min 4 (int (length others)))) (shuffle others)"
    have "length sel \<le> 4" by (simp add: sel_def)
    then have "fcard (fset_of_list sel) \<le> 4"
      using fcard_of_list [of sel] by linarith
    then show ?thesis
      using o by (simp add: sel_def)
  next
    case False
    define ranked where "ranked = map fst (sorted_desc snd
       (map (\<lambda>q. (q, needed_count p replies q)) (answering p replies)))"
    define choked where "choked = filter (\<lambda>q. q |\<notin>| fset_of_list (take 4 ranked)) ranked"
    note b = update_peers_busy [OF known False, of replies shuffle draw, folded ranked_def]
    have "length (take 4 ranked) \<le> 4" by simp
    then have c: "fcard (fset_of_list (take 4 ranked)) \<le> 4"
      using fcard_of_list [of "take 4 ranked"] by linarith
    have "q |\<notin>| fset_of_list (take 4 ranked)"
      if "choked \<noteq> []" "q = choked ! (draw mod length choked)" for q
    proof -
      have "q \<in> set choked" using that by simp
      then show ?thesis by (simp add: choked_def)
    qed
    then show ?thesis
      using b c by (auto simp: choked_def split: if_splits)
  qed
qed



section \<open>The unchoke invariant\<close>

lemma regular_tick_keeps:
  "optimistic_unchoke_peer (snd (update_unchoked_peers s connected_peers now)) =
     optimistic_unchoke_peer s \<and>
   max_unchoked (snd (update_unchoked_peers s connected_peers now)) = max_unchoked s"
  by (simp add: update_unchoked_peers_def Let_def)

lemma regular_tick_bound:
  assumes "fcard (unchoked_peers s) \<le> nat (max_unchoked s)"
  shows "fcard (unchoked_peers (snd (update_unchoked_peers s connected_peers now))) \<le>
         nat (max_unchoked s)"
proof (cases "now - last_unchoke_update s < unchoke_interval s")
  case True
  then show ?thesis using assms by (simp add: update_unchoked_peers_idle)
next
  case False
  note fires = this
  show ?thesis
  proof (cases "filter (\<lambda>p. p |\<in>| interested_peers s) connected_peers = []")
    case True
    then show ?thesis using assms update_unchoked_peers_nobody [OF fires True] by simp
  next
    case False
    then show ?thesis using regular_tick_strategies(2) [OF fires False] by simp
  qed
qed

lemma optimistic_tick_props:
  shows "unchoked_peers (snd (select_optimistic_unchoke s connected_peers now draw)) = unchoked_peers s"
    and "max_unchoked (snd (select_optimistic_unchoke s connected_peers now draw)) = max_unchoked s"
    and "now - last_optimistic_update s < optimistic_interval s \<Longrightarrow>
         optimistic_unchoke_peer (snd (select_optimistic_unchoke s connected_peers now draw)) =
         optimistic_unchoke_peer s"
    and "\<not> now - last_optimistic_update s < optimistic_interval s \<Longrightarrow>
         optimistic_unchoke_peer (snd (select_optimistic_unchoke s connected_peers now draw)) = Some q \<Longrightarrow>
         q |\<notin>| unchoked_peers s \<and> q \<in> set connected_peers \<and> q |\<in>| interested_peers s"
proof -
  show "unchoked_peers (snd (select_optimistic_unchoke s connected_peers now draw)) = unchoked_peers s"
    by (simp add: select_optimistic_unchoke_def Let_def)
  show "max_unchoked (snd (select_optimistic_unchoke s connected_peers now draw)) = max_unchoked s"
    by (simp add: select_optimistic_unchoke_def Let_def)
  show "now - last_optimistic_update s < optimistic_interval s \<Longrightarrow>
         optimistic_unchoke_peer (snd (select_optimistic_unchoke s connected_peers now draw)) =
         optimistic_unchoke_peer s"
    by (simp add: select_optimistic_unchoke_def)
  define elig where "elig = filter (\<lambda>p. p |\<in>| interested_peers s \<and> p |\<notin>| unchoked_peers s)
      connected_peers"
  show "q |\<notin>| unchoked_peers s \<and> q \<in> set connected_peers \<and> q |\<in>| interested_peers s"
    if f: "\<not> now - last_optimistic_update s < optimistic_interval s"
      and o: "optimistic_unchoke_peer (snd (select_optimistic_unchoke s connected_peers now draw)) = Some q"
  proof -
    have ne: "elig \<noteq> []" using f o by (auto simp: select_optimistic_unchoke_def Let_def elig_def)
    then have "q = elig ! (draw mod length elig)"
      using f o by (simp add: select_optimistic_unchoke_def Let_def elig_def)
    then have "q \<in> set elig" using ne by simp
    then show ?thesis by (simp add: elig_def)
  qed
qed

text \<open>
  C5, as the code has it. In \<open>strategies.py\<close> the regular tick keeps the regular set
  within \<open>max_unchoked\<close> members (4 by default) and does not touch the optimistic
  slot; the optimistic tick does not touch the regular set and, when it is due, picks
  a connected, interested peer outside the regular set (or nobody); when it is not
  due it keeps the previous optimistic peer. So the optimistic peer is outside the
  regular set right after a due optimistic tick, but a later regular tick may unchoke
  it as a regular peer as well. In \<open>minibit-final\<close> one round sets both: at most four
  allowed peers and an optimistic peer outside them.
\<close>

theorem unchoke_set_invariant:
  assumes "fcard (unchoked_peers s) \<le> nat (max_unchoked s)"
    and "fcard (p_allowed_peers p) \<le> 4"
    and "\<forall>q. p_optimistic_peer p = Some q \<longrightarrow> q |\<notin>| p_allowed_peers p"
  shows "fcard (unchoked_peers (snd (update_unchoked_peers s connected_peers now))) \<le>
           nat (max_unchoked s) \<and>
         max_unchoked (snd (update_unchoked_peers s connected_peers now)) = max_unchoked s \<and>
         optimistic_unchoke_peer (snd (update_unchoked_peers s connected_peers now)) =
           optimistic_unchoke_peer s \<and>
         unchoked_peers (snd (select_optimistic_unchoke s connected_peers now draw)) =
           unchoked_peers s \<and>
         max_unchoked (snd (select_optimistic_unchoke s connected_peers now draw)) = max_unchoked s \<and>
         (now - last_optimistic_update s < optimistic_interval s \<longrightarrow>
            optimistic_unchoke_peer (snd (select_optimistic_unchoke s connected_peers now draw)) =
            optimistic_unchoke_peer s) \<and>
         (\<not> now - last_optimistic_update s < optimistic_interval s \<longrightarrow>
            (\<forall>q. optimistic_unchoke_peer (snd (select_optimistic_unchoke s connected_peers now draw)) =
                   Some q \<longrightarrow>
                 q |\<notin>| unchoked_peers (snd (select_optimistic_unchoke s connected_peers now draw)) \<and>
                 q \<in> set connected_peers \<and> q |\<in>| interested_peers s)) \<and>
         fcard (p_allowed_peers (update_peers p replies shuffle pick)) \<le> 4 \<and>
         (\<forall>q. p_optimistic_peer (update_peers p replies shuffle pick) = Some q \<longrightarrow>
              q |\<notin>| p_allowed_peers (update_peers p replies shuffle pick))"
proof -
  have "\<forall>q. optimistic_unchoke_peer (snd (select_optimistic_unchoke s connected_peers now draw)) =
           Some q \<longrightarrow>
         q |\<notin>| unchoked_peers (snd (select_optimistic_unchoke s connected_peers now draw)) \<and>
         q \<in> set connected_peers \<and> q |\<in>| interested_peers s"
    if "\<not> now - last_optimistic_update s < optimistic_interval s"
    using that optimistic_tick_props(4) [of now s connected_peers draw]
    by (simp add: optimistic_tick_props(1))
  then show ?thesis
    using regular_tick_bound [OF assms(1), of connected_peers now]
      regular_tick_keeps [of s connected_peers now]
      optimistic_tick_props(1,2) [of s connected_peers now draw]
      optimistic_tick_props(3) [of now s connected_peers draw]
      update_peers_invariant [OF assms(2,3), of replies shuffle pick]
    by simp
qed

lemma strategies_examples:
  "unchoked_peers strategies3 = {|''B'', ''C'', ''D'', ''E''|}"
  "max_unchoked strategies3 = 4"
  "last_optimistic_update strategies3 = 0"
  "optimistic_interval strategies3 = 30"
  "optimistic_unchoke_peer strategies4 = Some ''A''"
  "unchoked_peers strategies4 = {|''B'', ''C'', ''D'', ''E''|}"
  "unchoked_peers strategies5 = {|''A'', ''C'', ''D'', ''E''|}"
  "optimistic_unchoke_peer strategies5 = Some ''A''"
  unfolding strategies5_def strategies4_def strategies3_def strategies2_def five_def
  by code_simp+


theorem unchoke_set_invariant_witness:
  "fcard (unchoked_peers (snd (update_unchoked_peers strategies3 five 30))) \<le>
     nat (max_unchoked strategies3) \<and>
   optimistic_unchoke_peer (snd (update_unchoked_peers strategies3 five 30)) =
     optimistic_unchoke_peer strategies3 \<and>
   unchoked_peers (snd (select_optimistic_unchoke strategies3 five 30 0)) = unchoked_peers strategies3 \<and>
   optimistic_unchoke_peer strategies4 = Some ''A'' \<and>
   ''A'' |\<notin>| unchoked_peers strategies4 \<and>
   fcard (p_allowed_peers (update_peers peer1 replies2 id 0)) \<le> 4"
proof -
  have 1: "fcard (unchoked_peers strategies3) \<le> nat (max_unchoked strategies3)"
    by (simp add: strategies_examples fcard_finsert_if fcard_fempty)
  have 2: "fcard (p_allowed_peers peer1) \<le> 4"
    by (simp add: peer1_def fcard_finsert_if fcard_fempty)
  have 3: "\<forall>q. p_optimistic_peer peer1 = Some q \<longrightarrow> q |\<notin>| p_allowed_peers peer1"
    by (simp add: peer1_def)
  show ?thesis
    using unchoke_set_invariant [OF 1 2 3, of five 30 0 replies2 id 0]
    by (simp add: strategies_examples strategies4_def [symmetric])
qed

theorem optimistic_overlap_counterexample:
  "fcard (unchoked_peers strategies4) \<le> 4 \<and>
   optimistic_unchoke_peer strategies4 = Some ''A'' \<and>
   ''A'' |\<notin>| unchoked_peers strategies4 \<and>
   optimistic_unchoke_peer strategies5 = Some ''A'' \<and>
   ''A'' |\<in>| unchoked_peers strategies5"
  by (simp add: strategies_examples fcard_finsert_if fcard_fempty)

section \<open>The regular tick\<close>










end
